theory Spec2Isabelle
  imports Complex_Main "HOL-Library.Word"
begin

section \<open>JavaScript strings\<close>

text \<open>
  A JavaScript string is a sequence of UTF-16 code units and \<open>.length\<close> counts them, so a
  string is a list of 16-bit words. \<open>lit\<close> writes an ASCII literal of the source.
\<close>

type_synonym jschar = "16 word"
type_synonym jsstring = "jschar list"

definition lit :: "string \<Rightarrow> jsstring" where
  "lit cs = map of_char cs"

text \<open>
  \<open>String.prototype.trim\<close> strips WhiteSpace and LineTerminator code units from both ends:
  TAB, LF, VT, FF, CR, SP, NBSP, the other space separators, LS, PS and the byte order mark.
\<close>

definition is_ws :: "jschar \<Rightarrow> bool" where
  "is_ws c \<longleftrightarrow> c \<in> set [0x0009, 0x000A, 0x000B, 0x000C, 0x000D, 0x0020, 0x00A0, 0x1680,
     0x2000, 0x2001, 0x2002, 0x2003, 0x2004, 0x2005, 0x2006, 0x2007, 0x2008, 0x2009, 0x200A,
     0x2028, 0x2029, 0x202F, 0x205F, 0x3000, 0xFEFF]"

definition trim :: "jsstring \<Rightarrow> jsstring" where
  "trim s = rev (dropWhile is_ws (rev (dropWhile is_ws s)))"

text \<open>
  Number-to-string conversion of a non-negative integer, as a template literal does it
  (decimal digits; the source only renders array indices, stage numbers and HTTP statuses).
\<close>

definition digit :: "nat \<Rightarrow> jschar" where
  "digit d = of_nat (48 + d)"

function show_nat :: "nat \<Rightarrow> jsstring" where
  "show_nat n = (if n < 10 then [digit n] else show_nat (n div 10) @ [digit (n mod 10)])"
  by pat_completeness auto
termination
  by (relation "measure (\<lambda>n. n)") auto

declare show_nat.simps [simp del]

text \<open>\<open>Array.prototype.join\<close> on an array of strings.\<close>

fun join :: "jsstring \<Rightarrow> jsstring list \<Rightarrow> jsstring" where
  "join sep [] = []"
| "join sep [x] = x"
| "join sep (x # y # ys) = x @ sep @ join sep (y # ys)"

section \<open>Data model\<close>

datatype source_type = Url | Text | Note

text \<open>\<open>{ id, type, title, content, date }\<close>\<close>

record source =
  src_id :: jsstring
  src_type :: source_type
  src_title :: jsstring
  src_content :: jsstring
  src_date :: jsstring

text \<open>\<open>{ id, title, content, outline, analysis, date, format }\<close>, built by \<open>saveDraft\<close>.\<close>

record saved_draft =
  d_id :: jsstring
  d_title :: jsstring
  d_content :: jsstring
  d_outline :: jsstring
  d_analysis :: jsstring
  d_date :: jsstring
  d_format :: jsstring

text \<open>\<open>{ sources: [], drafts: [], notes: [] }\<close>\<close>

record library =
  lib_sources :: "source list"
  lib_drafts :: "saved_draft list"
  lib_notes :: "source list"

definition empty_library :: library where
  "empty_library = \<lparr>lib_sources = [], lib_drafts = [], lib_notes = []\<rparr>"

datatype role = User | Assistant

record turn =
  role :: role
  content :: jsstring

section \<open>Agent calls\<close>

text \<open>
  The four prompt constants are fixed texts that the code hands to the backend and never
  inspects; they are represented by their names.
\<close>

datatype prompt = RESEARCH_AGENT | OUTLINE_AGENT | WRITING_AGENT | CHAT_REFINE

datatype tool = Web_search

record request =
  system :: prompt
  messages :: "turn list"
  max_tokens :: nat
  tools :: "tool list"

text \<open>
  What one \<open>fetch\<close> of the messages endpoint comes to: the promise rejects (network failure,
  with the error's message), or a response arrives with its \<open>ok\<close> flag, its status and its
  body. The body either cannot be read as an object (\<open>res.json()\<close> rejects, with the message),
  or is an object whose \<open>content\<close> is absent or a list of blocks, each with an optional
  \<open>text\<close>.
\<close>

datatype body = Unreadable jsstring | Data "jsstring option list option"

datatype http = Rejected jsstring | Response bool nat body

type_synonym backend = "request \<Rightarrow> http"

text \<open>
  \<open>data.content?.map((b) => b.text || "").filter(Boolean).join("\n") || ""\<close>
\<close>

definition block_text :: "jsstring option \<Rightarrow> jsstring" where
  "block_text b = (case b of None \<Rightarrow> [] | Some t \<Rightarrow> t)"

definition extract_text :: "jsstring option list option \<Rightarrow> jsstring" where
  "extract_text c =
     (case c of None \<Rightarrow> []
      | Some blocks \<Rightarrow> join (lit ''\<newline>'') (filter (\<lambda>t. t \<noteq> []) (map block_text blocks)))"

text \<open>
  The part of \<open>callAgent\<close> and \<open>callAgentChat\<close> after the \<open>fetch\<close>: \<open>Inl\<close> is the message of
  the error thrown, \<open>Inr\<close> the text returned.
\<close>

definition read_response :: "http \<Rightarrow> jsstring + jsstring" where
  "read_response h =
     (case h of
        Rejected m \<Rightarrow> Inl m
      | Response ok status b \<Rightarrow>
          if \<not> ok then Inl (lit ''API '' @ show_nat status)
          else (case b of Unreadable m \<Rightarrow> Inl m | Data c \<Rightarrow> Inr (extract_text c)))"

text \<open>
  Both callers take the log of the requests issued so far and return it extended by theirs:
  each invocation issues exactly one request.
\<close>

definition callAgent ::
  "backend \<Rightarrow> prompt \<Rightarrow> jsstring \<Rightarrow> tool list \<Rightarrow> request list \<Rightarrow> (jsstring + jsstring) \<times> request list"
where
  "callAgent fetch systemPrompt userMessage tls issued =
     (let req = \<lparr>system = systemPrompt,
                 messages = [\<lparr>role = User, content = userMessage\<rparr>],
                 max_tokens = 4000,
                 tools = tls\<rparr>
      in (read_response (fetch req), issued @ [req]))"

definition callAgentChat ::
  "backend \<Rightarrow> prompt \<Rightarrow> turn list \<Rightarrow> request list \<Rightarrow> (jsstring + jsstring) \<times> request list"
where
  "callAgentChat fetch systemPrompt msgs issued =
     (let req = \<lparr>system = systemPrompt, messages = msgs, max_tokens = 4000, tools = []\<rparr>
      in (read_response (fetch req), issued @ [req]))"

section \<open>Persistence\<close>

text \<open>
  \<open>localStorage\<close>: the stored items, and whether the browser refuses further writes
  (\<open>setItem\<close> then throws a quota error).
\<close>

record local_storage =
  items :: "jsstring \<rightharpoonup> jsstring"
  full :: bool

definition getItem :: "local_storage \<Rightarrow> jsstring \<Rightarrow> jsstring option" where
  "getItem st k = items st k"

definition setItem :: "local_storage \<Rightarrow> jsstring \<Rightarrow> jsstring \<Rightarrow> jsstring + local_storage" where
  "setItem st k v =
     (if full st then Inl (lit ''QuotaExceededError'') else Inr (st\<lparr>items := (items st)(k \<mapsto> v)\<rparr>))"

text \<open>
  \<open>JSON.stringify\<close> and \<open>JSON.parse\<close> belong to the platform, not to this program; the
  actions take them as a parameter, and the platform's own codec \<open>JSON\<close> is defined below.
  \<open>parse\<close> gives \<open>None\<close> where \<open>JSON.parse\<close> throws. The code does not validate what it
  parses, so a text that parses is taken to denote a library.
\<close>

record json =
  stringify :: "library \<Rightarrow> jsstring"
  parse :: "jsstring \<Rightarrow> library option"

definition STORAGE_KEY :: jsstring where
  "STORAGE_KEY = lit ''ra:library-v2''"

text \<open>
  \<open>result?.value ? JSON.parse(result.value) : {...}\<close> inside \<open>try\<close>: a missing or empty
  item and a parse error all give the empty library.
\<close>

definition loadLibrary :: "json \<Rightarrow> local_storage \<Rightarrow> library" where
  "loadLibrary js st =
     (case getItem st STORAGE_KEY of
        None \<Rightarrow> empty_library
      | Some v \<Rightarrow>
          if v = [] then empty_library
          else (case parse js v of None \<Rightarrow> empty_library | Some lib \<Rightarrow> lib))"

text \<open>A failed write is logged and swallowed: the storage stays as it was.\<close>

definition saveLibrary :: "json \<Rightarrow> library \<Rightarrow> local_storage \<Rightarrow> local_storage" where
  "saveLibrary js lib st =
     (case setItem st STORAGE_KEY (stringify js lib) of Inl e \<Rightarrow> st | Inr st' \<Rightarrow> st')"

section \<open>The platform's JSON codec\<close>

text \<open>
  Modelled from the spec: the serialized form of the library, a single string-valued
  record under one fixed key, JSON-shaped as \<open>{ sources, drafts, notes }\<close>. The functions
  \<open>JSON.stringify\<close> and \<open>JSON.parse\<close> that write and read it belong to the platform and
  are not among the sources; they are written here as ECMA-262 defines them, over the
  code units of the text.
\<close>

text \<open>
  A JSON value. A number stands as its text; an object lists its members in the order of
  the text.
\<close>

datatype jsvalue =
    JNull
  | JBool bool
  | JNumber jsstring
  | JString jsstring
  | JArray "jsvalue list"
  | JObject "(jsstring \<times> jsvalue) list"

subsection \<open>Writing\<close>

text \<open>
  \<open>QuoteJSONString\<close>: a backslash and one letter for backspace, tab, line feed, form feed
  and carriage return; a backslash before the quotation mark and the backslash; a
  backslash, \<open>u\<close> and four lower-case hexadecimal digits for the other code units below
  U+0020 and for a surrogate that is not part of a pair; every other code unit as it is.
\<close>

definition hexdigit :: "nat \<Rightarrow> jschar" where
  "hexdigit d = (if d < 10 then of_nat (48 + d) else of_nat (87 + d))"

definition unicode_escape :: "jschar \<Rightarrow> jsstring" where
  "unicode_escape c =
     [0x5C, 0x75, hexdigit (unat c div 4096), hexdigit (unat c div 256 mod 16),
      hexdigit (unat c div 16 mod 16), hexdigit (unat c mod 16)]"

definition escape_char :: "jschar \<Rightarrow> jsstring" where
  "escape_char c =
     (if c = 0x08 then [0x5C, 0x62]
      else if c = 0x09 then [0x5C, 0x74]
      else if c = 0x0A then [0x5C, 0x6E]
      else if c = 0x0C then [0x5C, 0x66]
      else if c = 0x0D then [0x5C, 0x72]
      else if c = 0x22 then [0x5C, 0x22]
      else if c = 0x5C then [0x5C, 0x5C]
      else if c < 0x20 then unicode_escape c
      else [c])"

definition leading_surrogate :: "jschar \<Rightarrow> bool" where
  "leading_surrogate c \<longleftrightarrow> 0xD800 \<le> c \<and> c \<le> 0xDBFF"

definition trailing_surrogate :: "jschar \<Rightarrow> bool" where
  "trailing_surrogate c \<longleftrightarrow> 0xDC00 \<le> c \<and> c \<le> 0xDFFF"

fun quote_chars :: "jsstring \<Rightarrow> jsstring" where
  "quote_chars [] = []"
| "quote_chars [c] =
     (if leading_surrogate c \<or> trailing_surrogate c then unicode_escape c else escape_char c)"
| "quote_chars (c # d # cs) =
     (if leading_surrogate c then
        (if trailing_surrogate d then c # d # quote_chars cs
         else unicode_escape c @ quote_chars (d # cs))
      else if trailing_surrogate c then unicode_escape c @ quote_chars (d # cs)
      else escape_char c @ quote_chars (d # cs))"

definition quote :: "jsstring \<Rightarrow> jsstring" where
  "quote s = 0x22 # quote_chars s @ [0x22]"

text \<open>
  \<open>JSON.stringify\<close> without indentation: no white space, members and elements separated
  by commas, a member as its quoted key, a colon and its value.
\<close>

fun stringify_value :: "jsvalue \<Rightarrow> jsstring" where
  "stringify_value JNull = lit ''null''"
| "stringify_value (JBool b) = (if b then lit ''true'' else lit ''false'')"
| "stringify_value (JNumber t) = t"
| "stringify_value (JString s) = quote s"
| "stringify_value (JArray vs) = 0x5B # join [0x2C] (map stringify_value vs) @ [0x5D]"
| "stringify_value (JObject kvs) =
     0x7B # join [0x2C] (map (\<lambda>kv. quote (fst kv) @ 0x3A # stringify_value (snd kv)) kvs) @ [0x7D]"

text \<open>The text of one member, as \<open>stringify_value\<close> writes it.\<close>

definition member_text :: "jsstring \<times> jsvalue \<Rightarrow> jsstring" where
  "member_text kv = quote (fst kv) @ 0x3A # stringify_value (snd kv)"

subsection \<open>Reading\<close>

text \<open>JSON white space is tab, line feed, carriage return and space.\<close>

definition is_json_ws :: "jschar \<Rightarrow> bool" where
  "is_json_ws c \<longleftrightarrow> c \<in> set [0x09, 0x0A, 0x0D, 0x20]"

definition skip_ws :: "jsstring \<Rightarrow> jsstring" where
  "skip_ws s = dropWhile is_json_ws s"

text \<open>
  The characters of a string after its opening quotation mark, up to the closing one.
  After a backslash comes a quotation mark, a backslash, a slash, one of the letters
  \<open>b f n r t\<close>, or \<open>u\<close> with four hexadecimal digits of either case; a code unit below
  U+0020 is refused. The result is the string and the rest of the text.
\<close>

definition hexval :: "jschar \<Rightarrow> nat option" where
  "hexval c =
     (if 0x30 \<le> c \<and> c \<le> 0x39 then Some (unat c - 48)
      else if 0x61 \<le> c \<and> c \<le> 0x66 then Some (unat c - 87)
      else if 0x41 \<le> c \<and> c \<le> 0x46 then Some (unat c - 55)
      else None)"

definition unescape :: "jschar \<Rightarrow> jschar option" where
  "unescape e =
     (if e = 0x22 then Some 0x22
      else if e = 0x5C then Some 0x5C
      else if e = 0x2F then Some 0x2F
      else if e = 0x62 then Some 0x08
      else if e = 0x66 then Some 0x0C
      else if e = 0x6E then Some 0x0A
      else if e = 0x72 then Some 0x0D
      else if e = 0x74 then Some 0x09
      else None)"

definition read_more :: "jschar \<Rightarrow> (jsstring \<times> jsstring) option \<Rightarrow> (jsstring \<times> jsstring) option" where
  "read_more c r = (case r of None \<Rightarrow> None | Some (s, rest) \<Rightarrow> Some (c # s, rest))"

fun parse_chars :: "jsstring \<Rightarrow> (jsstring \<times> jsstring) option" where
  "parse_chars [] = None"
| "parse_chars (c # cs) =
     (if c = 0x22 then Some ([], cs)
      else if c = 0x5C then
        (case cs of
           [] \<Rightarrow> None
         | e # r \<Rightarrow>
             if e = 0x75 then
               (case r of
                  h1 # h2 # h3 # h4 # r' \<Rightarrow>
                    (case (hexval h1, hexval h2, hexval h3, hexval h4) of
                       (Some a, Some b, Some c', Some d) \<Rightarrow>
                         read_more (of_nat (((a * 16 + b) * 16 + c') * 16 + d)) (parse_chars r')
                     | _ \<Rightarrow> None)
                | _ \<Rightarrow> None)
             else (case unescape e of None \<Rightarrow> None | Some u \<Rightarrow> read_more u (parse_chars r)))
      else if c < 0x20 then None
      else read_more c (parse_chars cs))"

text \<open>
  A number: an optional minus sign, \<open>0\<close> or a digit sequence, an optional fraction and an
  optional exponent, each with at least one digit.
\<close>

definition is_digit :: "jschar \<Rightarrow> bool" where
  "is_digit c \<longleftrightarrow> 0x30 \<le> c \<and> c \<le> 0x39"

definition parse_digits :: "jsstring \<Rightarrow> (jsstring \<times> jsstring) option" where
  "parse_digits s =
     (if takeWhile is_digit s = [] then None else Some (takeWhile is_digit s, dropWhile is_digit s))"

definition parse_number :: "jsstring \<Rightarrow> (jsstring \<times> jsstring) option" where
  "parse_number s =
     (let (sign, s1) = (case s of c # r \<Rightarrow> if c = 0x2D then ([c], r) else ([], s) | [] \<Rightarrow> ([], s))
      in case (case s1 of
                 [] \<Rightarrow> None
               | d # r \<Rightarrow> if d = 0x30 then Some ([d], r) else parse_digits s1) of
           None \<Rightarrow> None
         | Some (whole, s2) \<Rightarrow>
             (case (case s2 of
                      [] \<Rightarrow> Some ([], s2)
                    | p # r \<Rightarrow>
                        if p = 0x2E then
                          (case parse_digits r of None \<Rightarrow> None | Some (ds, r') \<Rightarrow> Some (p # ds, r'))
                        else Some ([], s2)) of
                None \<Rightarrow> None
              | Some (fraction, s3) \<Rightarrow>
                  (case (case s3 of
                           [] \<Rightarrow> Some ([], s3)
                         | e # r \<Rightarrow>
                             if e = 0x65 \<or> e = 0x45 then
                               (let (esign, r1) =
                                      (case r of
                                         g # r' \<Rightarrow> if g = 0x2B \<or> g = 0x2D then ([g], r') else ([], r)
                                       | [] \<Rightarrow> ([], r))
                                in case parse_digits r1 of
                                     None \<Rightarrow> None
                                   | Some (ds, r2) \<Rightarrow> Some (e # esign @ ds, r2))
                             else Some ([], s3)) of
                     None \<Rightarrow> None
                   | Some (exponent, s4) \<Rightarrow> Some (sign @ whole @ fraction @ exponent, s4))))"

text \<open>
  The recursive descent. The first argument bounds the depth of the recursion: each
  descent into an array or an object and each step to the next element or member has read
  a character, so the length of the text is bound enough, and \<open>JSON_parse\<close> starts with it.
  \<open>None\<close> is the \<open>SyntaxError\<close>.
\<close>

definition parse_word :: "jsstring \<Rightarrow> jsvalue \<Rightarrow> jsstring \<Rightarrow> (jsvalue \<times> jsstring) option" where
  "parse_word w v s = (if take (length w) s = w then Some (v, drop (length w) s) else None)"

fun parse_value :: "nat \<Rightarrow> jsstring \<Rightarrow> (jsvalue \<times> jsstring) option"
  and parse_elements :: "nat \<Rightarrow> jsstring \<Rightarrow> (jsvalue list \<times> jsstring) option"
  and parse_members :: "nat \<Rightarrow> jsstring \<Rightarrow> ((jsstring \<times> jsvalue) list \<times> jsstring) option"
where
  "parse_value 0 s = None"
| "parse_value (Suc n) s =
     (case skip_ws s of
        [] \<Rightarrow> None
      | c # cs \<Rightarrow>
          if c = 0x22 then
            (case parse_chars cs of None \<Rightarrow> None | Some (str, r) \<Rightarrow> Some (JString str, r))
          else if c = 0x5B then
            (case skip_ws cs of
               [] \<Rightarrow> None
             | d # r \<Rightarrow>
                 if d = 0x5D then Some (JArray [], r)
                 else (case parse_elements n cs of None \<Rightarrow> None | Some (vs, r') \<Rightarrow> Some (JArray vs, r')))
          else if c = 0x7B then
            (case skip_ws cs of
               [] \<Rightarrow> None
             | d # r \<Rightarrow>
                 if d = 0x7D then Some (JObject [], r)
                 else (case parse_members n cs of None \<Rightarrow> None | Some (kvs, r') \<Rightarrow> Some (JObject kvs, r')))
          else if c = 0x74 then parse_word (lit ''true'') (JBool True) (c # cs)
          else if c = 0x66 then parse_word (lit ''false'') (JBool False) (c # cs)
          else if c = 0x6E then parse_word (lit ''null'') JNull (c # cs)
          else (case parse_number (c # cs) of None \<Rightarrow> None | Some (t, r) \<Rightarrow> Some (JNumber t, r)))"
| "parse_elements 0 s = None"
| "parse_elements (Suc n) s =
     (case parse_value n s of
        None \<Rightarrow> None
      | Some (v, r) \<Rightarrow>
          (case skip_ws r of
             [] \<Rightarrow> None
           | d # r' \<Rightarrow>
               if d = 0x2C then
                 (case parse_elements n r' of None \<Rightarrow> None | Some (vs, r'') \<Rightarrow> Some (v # vs, r''))
               else if d = 0x5D then Some ([v], r')
               else None))"
| "parse_members 0 s = None"
| "parse_members (Suc n) s =
     (case skip_ws s of
        [] \<Rightarrow> None
      | q # cs \<Rightarrow>
          if q \<noteq> 0x22 then None
          else
            (case parse_chars cs of
               None \<Rightarrow> None
             | Some (k, r) \<Rightarrow>
                 (case skip_ws r of
                    [] \<Rightarrow> None
                  | colon # r1 \<Rightarrow>
                      if colon \<noteq> 0x3A then None
                      else
                        (case parse_value n r1 of
                           None \<Rightarrow> None
                         | Some (v, r2) \<Rightarrow>
                             (case skip_ws r2 of
                                [] \<Rightarrow> None
                              | d # r3 \<Rightarrow>
                                  if d = 0x2C then
                                    (case parse_members n r3 of
                                       None \<Rightarrow> None
                                     | Some (kvs, r4) \<Rightarrow> Some ((k, v) # kvs, r4))
                                  else if d = 0x7D then Some ([(k, v)], r3)
                                  else None)))))"

text \<open>The whole text is one value, with white space around it at most.\<close>

definition JSON_parse :: "jsstring \<Rightarrow> jsvalue option" where
  "JSON_parse s =
     (case parse_value (Suc (length s)) s of
        None \<Rightarrow> None
      | Some (v, r) \<Rightarrow> if skip_ws r = [] then Some v else None)"

subsection \<open>The library as a JSON value\<close>

text \<open>
  The objects the program builds, with their properties in the order in which the object
  literals of \<open>addUrl\<close>, \<open>addText\<close>, \<open>addNote\<close> and \<open>saveDraft\<close> and the library literal
  list them (\<open>{ ...library, notes: [...] }\<close> keeps that order).
\<close>

definition type_name :: "source_type \<Rightarrow> jsstring" where
  "type_name t = (case t of Url \<Rightarrow> lit ''url'' | Text \<Rightarrow> lit ''text'' | Note \<Rightarrow> lit ''note'')"

definition type_named :: "jsstring \<Rightarrow> source_type option" where
  "type_named n =
     (if n = lit ''url'' then Some Url
      else if n = lit ''text'' then Some Text
      else if n = lit ''note'' then Some Note
      else None)"

definition source_value :: "source \<Rightarrow> jsvalue" where
  "source_value s =
     JObject [(lit ''id'', JString (src_id s)),
              (lit ''type'', JString (type_name (src_type s))),
              (lit ''title'', JString (src_title s)),
              (lit ''content'', JString (src_content s)),
              (lit ''date'', JString (src_date s))]"

definition draft_value :: "saved_draft \<Rightarrow> jsvalue" where
  "draft_value d =
     JObject [(lit ''id'', JString (d_id d)),
              (lit ''title'', JString (d_title d)),
              (lit ''content'', JString (d_content d)),
              (lit ''outline'', JString (d_outline d)),
              (lit ''analysis'', JString (d_analysis d)),
              (lit ''date'', JString (d_date d)),
              (lit ''format'', JString (d_format d))]"

definition library_value :: "library \<Rightarrow> jsvalue" where
  "library_value lib =
     JObject [(lit ''sources'', JArray (map source_value (lib_sources lib))),
              (lit ''drafts'', JArray (map draft_value (lib_drafts lib))),
              (lit ''notes'', JArray (map source_value (lib_notes lib)))]"

text \<open>
  Reading a property of a parsed object: where the text repeats a key, the last member
  wins. The library that the program sees in a parsed value consists of the properties it
  reads. A value in which one of them is missing or of another kind is no library; the
  code would carry such a value on as it is, and no action of the program writes one.
\<close>

definition field :: "jsstring \<Rightarrow> (jsstring \<times> jsvalue) list \<Rightarrow> jsvalue option" where
  "field k kvs = map_of (rev kvs) k"

definition string_field :: "jsstring \<Rightarrow> (jsstring \<times> jsvalue) list \<Rightarrow> jsstring option" where
  "string_field k kvs = (case field k kvs of Some (JString s) \<Rightarrow> Some s | _ \<Rightarrow> None)"

definition as_source :: "jsvalue \<Rightarrow> source option" where
  "as_source v =
     (case v of
        JObject kvs \<Rightarrow>
          (case (string_field (lit ''id'') kvs,
                 Option.bind (string_field (lit ''type'') kvs) type_named,
                 string_field (lit ''title'') kvs,
                 string_field (lit ''content'') kvs,
                 string_field (lit ''date'') kvs) of
             (Some i, Some t, Some ti, Some c, Some d) \<Rightarrow>
               Some \<lparr>src_id = i, src_type = t, src_title = ti, src_content = c, src_date = d\<rparr>
           | _ \<Rightarrow> None)
      | _ \<Rightarrow> None)"

definition as_draft :: "jsvalue \<Rightarrow> saved_draft option" where
  "as_draft v =
     (case v of
        JObject kvs \<Rightarrow>
          (case (string_field (lit ''id'') kvs,
                 string_field (lit ''title'') kvs,
                 string_field (lit ''content'') kvs,
                 string_field (lit ''outline'') kvs,
                 string_field (lit ''analysis'') kvs,
                 string_field (lit ''date'') kvs,
                 string_field (lit ''format'') kvs) of
             (Some i, Some ti, Some c, Some ou, Some an, Some d, Some f) \<Rightarrow>
               Some \<lparr>d_id = i, d_title = ti, d_content = c, d_outline = ou, d_analysis = an,
                     d_date = d, d_format = f\<rparr>
           | _ \<Rightarrow> None)
      | _ \<Rightarrow> None)"

definition list_field ::
  "(jsvalue \<Rightarrow> 'a option) \<Rightarrow> jsstring \<Rightarrow> (jsstring \<times> jsvalue) list \<Rightarrow> 'a list option"
where
  "list_field f k kvs = (case field k kvs of Some (JArray vs) \<Rightarrow> those (map f vs) | _ \<Rightarrow> None)"

definition as_library :: "jsvalue \<Rightarrow> library option" where
  "as_library v =
     (case v of
        JObject kvs \<Rightarrow>
          (case (list_field as_source (lit ''sources'') kvs,
                 list_field as_draft (lit ''drafts'') kvs,
                 list_field as_source (lit ''notes'') kvs) of
             (Some a, Some b, Some c) \<Rightarrow> Some \<lparr>lib_sources = a, lib_drafts = b, lib_notes = c\<rparr>
           | _ \<Rightarrow> None)
      | _ \<Rightarrow> None)"

text \<open>The codec that \<open>loadLibrary\<close> and \<open>saveLibrary\<close> are run with.\<close>

definition JSON :: json where
  "JSON =
     \<lparr>stringify = (\<lambda>lib. stringify_value (library_value lib)),
      parse = (\<lambda>t. case JSON_parse t of None \<Rightarrow> None | Some v \<Rightarrow> as_library v)\<rparr>"

text \<open>The values that \<open>library_value\<close> produces are made of strings, arrays and objects.\<close>

fun plain :: "jsvalue \<Rightarrow> bool" where
  "plain (JString s) = True"
| "plain (JArray vs) = (\<forall>v\<in>set vs. plain v)"
| "plain (JObject kvs) = (\<forall>kv\<in>set kvs. plain (snd kv))"
| "plain v = False"

section \<open>Application state\<close>

datatype view = Collect | Pipeline | Refine | Library_view

text \<open>
  The \<open>useState\<close> cells of \<open>ResearchAgentV2\<close> that the actions below read or write, and the
  browser's storage. An action is modelled by the state it leaves once it has completed.
\<close>

record state =
  view :: view
  sources :: "source list"
  topicAngle :: jsstring
  pipelineStage :: nat
  researchAnalysis :: jsstring
  outline :: jsstring
  draft :: jsstring
  selectedFormat :: jsstring
  chatMessages :: "turn list"
  chatInput :: jsstring
  chatLoading :: bool
  library :: library
  noteInput :: jsstring
  noteTitle :: jsstring
  error :: jsstring
  localStorage :: local_storage

definition initial_state :: "local_storage \<Rightarrow> state" where
  "initial_state st =
     \<lparr>view = Collect, sources = [], topicAngle = [], pipelineStage = 0, researchAnalysis = [],
      outline = [], draft = [], selectedFormat = lit ''blog'', chatMessages = [], chatInput = [],
      chatLoading = False, library = empty_library, noteInput = [], noteTitle = [], error = [],
      localStorage = st\<rparr>"

section \<open>Source ingestion and library actions\<close>

text \<open>
  \<open>uid()\<close> and \<open>new Date().toISOString()\<close> read the clock and the random generator; their
  results are the parameters \<open>uid\<close> and \<open>now\<close>.
\<close>

definition addNote :: "json \<Rightarrow> jsstring \<Rightarrow> jsstring \<Rightarrow> state \<Rightarrow> state" where
  "addNote js uid now s =
     (if trim (noteInput s) = [] then s
      else
        let note = \<lparr>src_id = uid, src_type = Note,
                    src_title = (if noteTitle s = [] then lit ''Note'' else noteTitle s),
                    src_content = noteInput s, src_date = now\<rparr>;
            newLib = (library s)\<lparr>lib_notes := lib_notes (library s) @ [note]\<rparr>
        in s\<lparr>sources := sources s @ [note],
             library := newLib,
             localStorage := saveLibrary js newLib (localStorage s),
             noteInput := [],
             noteTitle := []\<rparr>)"

definition saveDraft :: "json \<Rightarrow> jsstring \<Rightarrow> jsstring \<Rightarrow> state \<Rightarrow> state" where
  "saveDraft js uid now s =
     (if draft s = [] then s
      else
        let d = \<lparr>d_id = uid,
                 d_title = (if topicAngle s = [] then lit ''Untitled draft'' else topicAngle s),
                 d_content = draft s, d_outline = outline s, d_analysis = researchAnalysis s,
                 d_date = now, d_format = selectedFormat s\<rparr>;
            newLib = (library s)\<lparr>lib_drafts := lib_drafts (library s) @ [d]\<rparr>
        in s\<lparr>library := newLib, localStorage := saveLibrary js newLib (localStorage s)\<rparr>)"

text \<open>
  \<open>sources.filter((s) => !library.sources.find((ls) => ls.id === s.id))\<close>, the merge that
  \<open>saveSourcesAll\<close> performs inline.
\<close>

definition newSources :: "source list \<Rightarrow> source list \<Rightarrow> source list" where
  "newSources existing incoming =
     filter (\<lambda>s. find (\<lambda>ls. src_id ls = src_id s) existing = None) incoming"

definition mergeSources :: "source list \<Rightarrow> source list \<Rightarrow> source list" where
  "mergeSources existing incoming = existing @ newSources existing incoming"

definition saveSourcesAll :: "json \<Rightarrow> state \<Rightarrow> state" where
  "saveSourcesAll js s =
     (let new = newSources (lib_sources (library s)) (sources s)
      in if length new = 0 then s
         else
           let newLib = (library s)\<lparr>lib_sources := lib_sources (library s) @ new\<rparr>
           in s\<lparr>library := newLib, localStorage := saveLibrary js newLib (localStorage s)\<rparr>)"

text \<open>
  \<open>deleteLibItem(category, id)\<close> is called with the three literals \<open>"drafts"\<close>, \<open>"sources"\<close>
  and \<open>"notes"\<close> only.
\<close>

datatype category = Drafts | Sources | Notes

definition deleteLibItem :: "json \<Rightarrow> category \<Rightarrow> jsstring \<Rightarrow> state \<Rightarrow> state" where
  "deleteLibItem js cat i s =
     (let newLib =
            (case cat of
               Drafts \<Rightarrow> (library s)\<lparr>lib_drafts := filter (\<lambda>x. d_id x \<noteq> i) (lib_drafts (library s))\<rparr>
             | Sources \<Rightarrow> (library s)\<lparr>lib_sources := filter (\<lambda>x. src_id x \<noteq> i) (lib_sources (library s))\<rparr>
             | Notes \<Rightarrow> (library s)\<lparr>lib_notes := filter (\<lambda>x. src_id x \<noteq> i) (lib_notes (library s))\<rparr>)
      in s\<lparr>library := newLib, localStorage := saveLibrary js newLib (localStorage s)\<rparr>)"

section \<open>Output formats\<close>

record format_option =
  fmt_id :: jsstring
  fmt_label :: jsstring

definition FORMATS :: "format_option list" where
  "FORMATS =
     [\<lparr>fmt_id = lit ''blog'', fmt_label = lit ''Blog Post''\<rparr>,
      \<lparr>fmt_id = lit ''thread'', fmt_label = lit ''Thread''\<rparr>,
      \<lparr>fmt_id = lit ''newsletter'', fmt_label = lit ''Newsletter''\<rparr>,
      \<lparr>fmt_id = lit ''outline'', fmt_label = lit ''Outline Only''\<rparr>]"

text \<open>
  One chip per entry of \<open>FORMATS\<close>, each with \<open>onClick={() => setSelectedFormat(f.id)}\<close>;
  \<open>selectFormat k\<close> is the click on the chip at position \<open>k\<close>. Nothing else writes the cell.
\<close>

definition selectFormat :: "nat \<Rightarrow> state \<Rightarrow> state" where
  "selectFormat k s =
     (if k < length FORMATS then s\<lparr>selectedFormat := fmt_id (FORMATS ! k)\<rparr> else s)"

section \<open>Pipeline\<close>

text \<open>
  \<open>sources.map((s, i) => `--- SOURCE ${i + 1}: ${s.title} ---\n${s.content}`).join("\n\n")\<close>
\<close>

definition render_source :: "nat \<Rightarrow> source \<Rightarrow> jsstring" where
  "render_source i s =
     lit ''--- SOURCE '' @ show_nat (i + 1) @ lit '': '' @ src_title s @ lit '' ---\<newline>'' @ src_content s"

definition allContent :: "source list \<Rightarrow> jsstring" where
  "allContent srcs =
     join (lit ''\<newline>\<newline>'') (map (\<lambda>(i, s). render_source i s) (enumerate 0 srcs))"

text \<open>\<open>topicAngle ? `\n\nTOPIC/ANGLE: ${topicAngle}` : ""\<close>\<close>

definition angleStr :: "jsstring \<Rightarrow> jsstring" where
  "angleStr angle = (if angle = [] then [] else lit ''\<newline>\<newline>TOPIC/ANGLE: '' @ angle)"

definition formatNote :: "jsstring \<Rightarrow> jsstring" where
  "formatNote fmt = lit ''Output format requested: '' @ fmt"

text \<open>
  The \<open>catch\<close> block. The handler closes over the \<open>pipelineStage\<close> of the render in which it
  was created, so the message shows the stage the run was started from.
\<close>

definition pipeline_failed :: "nat \<Rightarrow> jsstring \<Rightarrow> state \<Rightarrow> state" where
  "pipeline_failed stage0 m st =
     st\<lparr>error := lit ''Pipeline failed at stage '' @ show_nat stage0 @ lit '': '' @ m,
        pipelineStage := 0\<rparr>"

text \<open>
  \<open>runPipeline\<close> returns the state it leaves and the requests it has issued, in order.
\<close>

definition runPipeline :: "backend \<Rightarrow> state \<Rightarrow> state \<times> request list" where
  "runPipeline fetch s =
     (if length (sources s) = 0 then (s\<lparr>error := lit ''Add at least one source first.''\<rparr>, [])
      else
        let s1 = s\<lparr>error := [], view := Pipeline, pipelineStage := 1,
                   researchAnalysis := [], outline := [], draft := []\<rparr>;
            corpus = allContent (sources s);
            angle = angleStr (topicAngle s)
        in (case callAgent fetch RESEARCH_AGENT (corpus @ angle) [] [] of
              (Inl m, l1) \<Rightarrow> (pipeline_failed (pipelineStage s) m s1, l1)
            | (Inr analysis, l1) \<Rightarrow>
               (let s2 = s1\<lparr>researchAnalysis := analysis, pipelineStage := 2\<rparr>;
                    note = formatNote (selectedFormat s)
                in (case callAgent fetch OUTLINE_AGENT
                           (lit ''RESEARCH ANALYSIS:\<newline>'' @ analysis @ lit ''\<newline>\<newline>'' @ note @ angle)
                           [] l1 of
                      (Inl m, l2) \<Rightarrow> (pipeline_failed (pipelineStage s) m s2, l2)
                    | (Inr outlineResult, l2) \<Rightarrow>
                       (let s3 = s2\<lparr>outline := outlineResult, pipelineStage := 3\<rparr>
                        in (case callAgent fetch WRITING_AGENT
                                   (lit ''RESEARCH ANALYSIS:\<newline>'' @ analysis
                                      @ lit ''\<newline>\<newline>OUTLINE:\<newline>'' @ outlineResult
                                      @ lit ''\<newline>\<newline>'' @ note @ angle)
                                   [] l2 of
                              (Inl m, l3) \<Rightarrow> (pipeline_failed (pipelineStage s) m s3, l3)
                            | (Inr draftResult, l3) \<Rightarrow>
                                (s3\<lparr>draft := draftResult, pipelineStage := 4\<rparr>, l3)))))))"

section \<open>Refinement\<close>

text \<open>
  \<open>response.length > draft.length * 0.5\<close>: halving a string length is exact in double
  precision, so the comparison is the one over the reals.
\<close>

definition full_revision :: "jsstring \<Rightarrow> jsstring \<Rightarrow> bool" where
  "full_revision response d \<longleftrightarrow> real (length response) > real (length d) * 0.5"

definition apiMessages :: "jsstring \<Rightarrow> turn list \<Rightarrow> turn list" where
  "apiMessages d newMessages =
     [\<lparr>role = User,
       content = lit ''Here is the current draft:\<newline>\<newline>'' @ d
                 @ lit ''\<newline>\<newline>---\<newline>The user will now ask for edits.''\<rparr>,
      \<lparr>role = Assistant, content = lit ''I have the draft. What changes would you like?''\<rparr>]
     @ map (\<lambda>m. \<lparr>role = role m, content = content m\<rparr>) newMessages"

definition sendChat :: "backend \<Rightarrow> state \<Rightarrow> state \<times> request list" where
  "sendChat fetch s =
     (if trim (chatInput s) = [] \<or> chatLoading s then (s, [])
      else
        let userMsg = trim (chatInput s);
            newMessages = chatMessages s @ [\<lparr>role = User, content = userMsg\<rparr>];
            s1 = s\<lparr>chatInput := [], chatMessages := newMessages, chatLoading := True\<rparr>
        in (case callAgentChat fetch CHAT_REFINE (apiMessages (draft s) newMessages) [] of
              (Inr response, l) \<Rightarrow>
                (let s2 = s1\<lparr>chatMessages := chatMessages s1 @ [\<lparr>role = Assistant, content = response\<rparr>]\<rparr>;
                     s3 = (if full_revision response (draft s) then s2\<lparr>draft := response\<rparr> else s2)
                 in (s3\<lparr>chatLoading := False\<rparr>, l))
            | (Inl m, l) \<Rightarrow>
                (s1\<lparr>chatMessages :=
                      chatMessages s1 @ [\<lparr>role = Assistant, content = lit ''Error: '' @ m\<rparr>],
                    chatLoading := False\<rparr>, l)))"

section \<open>The requests an action issues\<close>

text \<open>
  The request that each stage of \<open>runPipeline\<close> and a turn of \<open>sendChat\<close> hands to \<open>fetch\<close>,
  written out from the state the action starts in; the properties below name the outcome of
  a call by the backend's answer to these.
\<close>

definition research_request :: "state \<Rightarrow> request" where
  "research_request s =
     \<lparr>system = RESEARCH_AGENT,
      messages = [\<lparr>role = User, content = allContent (sources s) @ angleStr (topicAngle s)\<rparr>],
      max_tokens = 4000, tools = []\<rparr>"

definition outline_request :: "state \<Rightarrow> jsstring \<Rightarrow> request" where
  "outline_request s analysis =
     \<lparr>system = OUTLINE_AGENT,
      messages = [\<lparr>role = User,
                   content = lit ''RESEARCH ANALYSIS:\<newline>'' @ analysis @ lit ''\<newline>\<newline>''
                             @ formatNote (selectedFormat s) @ angleStr (topicAngle s)\<rparr>],
      max_tokens = 4000, tools = []\<rparr>"

definition writing_request :: "state \<Rightarrow> jsstring \<Rightarrow> jsstring \<Rightarrow> request" where
  "writing_request s analysis outlineResult =
     \<lparr>system = WRITING_AGENT,
      messages = [\<lparr>role = User,
                   content = lit ''RESEARCH ANALYSIS:\<newline>'' @ analysis
                             @ lit ''\<newline>\<newline>OUTLINE:\<newline>'' @ outlineResult @ lit ''\<newline>\<newline>''
                             @ formatNote (selectedFormat s) @ angleStr (topicAngle s)\<rparr>],
      max_tokens = 4000, tools = []\<rparr>"

definition chat_request :: "state \<Rightarrow> request" where
  "chat_request s =
     \<lparr>system = CHAT_REFINE,
      messages = apiMessages (draft s)
                   (chatMessages s @ [\<lparr>role = User, content = trim (chatInput s)\<rparr>]),
      max_tokens = 4000, tools = []\<rparr>"

section \<open>The specification's vocabulary\<close>

text \<open>
  The corpus as the specification words it: the entries \<open>--- SOURCE i: <title> ---\<close>, a line
  break and the content, numbered from 1 in the order of the working set, with a blank line
  between two entries.
\<close>

definition spec_entry :: "nat \<Rightarrow> source \<Rightarrow> jsstring" where
  "spec_entry i s =
     lit ''--- SOURCE '' @ show_nat i @ lit '': '' @ src_title s @ lit '' ---'' @ lit ''\<newline>''
     @ src_content s"

fun spec_corpus_from :: "nat \<Rightarrow> source list \<Rightarrow> jsstring" where
  "spec_corpus_from i [] = []"
| "spec_corpus_from i [s] = spec_entry i s"
| "spec_corpus_from i (s # t # ts) =
     spec_entry i s @ lit ''\<newline>\<newline>'' @ spec_corpus_from (Suc i) (t # ts)"

definition spec_corpus :: "source list \<Rightarrow> jsstring" where
  "spec_corpus srcs = spec_corpus_from 1 srcs"

text \<open>The library invariant: within each of the three lists the ids are pairwise distinct.\<close>

definition unique_ids :: "library \<Rightarrow> bool" where
  "unique_ids lib \<longleftrightarrow>
     distinct (map src_id (lib_sources lib)) \<and> distinct (map d_id (lib_drafts lib))
     \<and> distinct (map src_id (lib_notes lib))"

section \<open>Mock backends and sample data\<close>

definition replying :: "jsstring \<Rightarrow> backend" where
  "replying t req = Response True 200 (Data (Some [Some t]))"

definition unavailable :: backend where
  "unavailable req = Response False 529 (Data None)"

definition outline_down :: backend where
  "outline_down req =
     (if system req = OUTLINE_AGENT then unavailable req else replying (lit ''analysis'') req)"

definition empty_storage :: local_storage where
  "empty_storage = \<lparr>items = Map.empty, full = False\<rparr>"

definition sample_source :: source where
  "sample_source =
     \<lparr>src_id = lit ''lqu5m2o0x7f3a'', src_type = Text, src_title = lit ''Paper'', src_content = lit ''body'',
      src_date = lit ''2024-01-01T00:00:00.000Z''\<rparr>"

definition sample_note :: source where
  "sample_note =
     \<lparr>src_id = lit ''lqvl1xc04kq9z'', src_type = Note, src_title = lit ''Note'', src_content = lit ''idea'',
      src_date = lit ''2024-01-02T00:00:00.000Z''\<rparr>"

definition sample_library :: library where
  "sample_library = \<lparr>lib_sources = [sample_source], lib_drafts = [], lib_notes = [sample_note]\<rparr>"

text \<open>A codec that knows one text, the one it writes for \<open>sample_library\<close>.\<close>

definition sample_json :: json where
  "sample_json =
     \<lparr>stringify = (\<lambda>lib. if lib = sample_library then lit ''S'' else lit ''{}''),
      parse = (\<lambda>t. if t = lit ''S'' then Some sample_library else None)\<rparr>"

definition idle :: state where
  "idle = initial_state empty_storage"

definition collected :: state where
  "collected = idle\<lparr>sources := [sample_source, sample_note], topicAngle := lit ''AI''\<rparr>"

definition drafted :: state where
  "drafted = idle\<lparr>draft := replicate 1000 0x61, pipelineStage := 4, chatInput := lit '' shorter ''\<rparr>"

definition noting :: state where
  "noting = idle\<lparr>library := sample_library, noteInput := lit ''again''\<rparr>"

definition new_id :: jsstring where
  "new_id = lit ''lqx0hs00b81mc''"

definition new_date :: jsstring where
  "new_date = lit ''2024-01-03T00:00:00.000Z''"

definition curating :: state where
  "curating = idle\<lparr>sources := [sample_source, sample_note], library := sample_library,
                    noteInput := lit ''again'', draft := lit ''text''\<rparr>"

section \<open>Basic facts\<close>

lemma full_revision_iff: "full_revision r d \<longleftrightarrow> length d < 2 * length r"
  by (auto simp: full_revision_def)

lemma trim_empty_iff: "trim x = [] \<longleftrightarrow> (\<forall>c\<in>set x. is_ws c)"
proof
  assume "trim x = []"
  then have "dropWhile is_ws (rev (dropWhile is_ws x)) = []"
    by (simp add: trim_def)
  then have all: "\<forall>c\<in>set (dropWhile is_ws x). is_ws c"
    by simp
  have "dropWhile is_ws x = []"
  proof (rule ccontr)
    assume ne: "dropWhile is_ws x \<noteq> []"
    then have "\<not> is_ws (hd (dropWhile is_ws x))" by (rule hd_dropWhile)
    moreover from ne have "hd (dropWhile is_ws x) \<in> set (dropWhile is_ws x)" by simp
    ultimately show False using all by blast
  qed
  then show "\<forall>c\<in>set x. is_ws c" by simp
next
  assume "\<forall>c\<in>set x. is_ws c"
  then have d: "dropWhile is_ws x = []" by simp
  show "trim x = []" unfolding trim_def d by simp
qed

lemma sendChat_idle: "trim (chatInput s) = [] \<or> chatLoading s \<Longrightarrow> sendChat fetch s = (s, [])"
  by (simp add: sendChat_def)

lemma sendChat_answered:
  assumes "trim (chatInput s) \<noteq> []" and "\<not> chatLoading s"
    and "read_response (fetch (chat_request s)) = Inr response"
  shows "sendChat fetch s =
    ((if full_revision response (draft s)
      then s\<lparr>chatInput := [],
             chatMessages := chatMessages s @ [\<lparr>role = User, content = trim (chatInput s)\<rparr>,
                                               \<lparr>role = Assistant, content = response\<rparr>],
             chatLoading := False, draft := response\<rparr>
      else s\<lparr>chatInput := [],
             chatMessages := chatMessages s @ [\<lparr>role = User, content = trim (chatInput s)\<rparr>,
                                               \<lparr>role = Assistant, content = response\<rparr>],
             chatLoading := False\<rparr>), [chat_request s])"
  using assms by (simp add: sendChat_def callAgentChat_def chat_request_def Let_def)

lemma sendChat_failed:
  assumes "trim (chatInput s) \<noteq> []" and "\<not> chatLoading s"
    and "read_response (fetch (chat_request s)) = Inl m"
  shows "sendChat fetch s =
    (s\<lparr>chatInput := [],
       chatMessages := chatMessages s @ [\<lparr>role = User, content = trim (chatInput s)\<rparr>,
                                         \<lparr>role = Assistant, content = lit ''Error: '' @ m\<rparr>],
       chatLoading := False\<rparr>, [chat_request s])"
  using assms by (simp add: sendChat_def callAgentChat_def chat_request_def Let_def)

lemma runPipeline_refused:
  "sources s = [] \<Longrightarrow> runPipeline fetch s = (s\<lparr>error := lit ''Add at least one source first.''\<rparr>, [])"
  by (simp add: runPipeline_def)

lemma runPipeline_research_failed:
  assumes "sources s \<noteq> []"
    and "read_response (fetch (research_request s)) = Inl m"
  shows "runPipeline fetch s =
    (s\<lparr>view := Pipeline, researchAnalysis := [], outline := [], draft := [],
       error := lit ''Pipeline failed at stage '' @ show_nat (pipelineStage s) @ lit '': '' @ m,
       pipelineStage := 0\<rparr>, [research_request s])"
  using assms
  by (simp add: runPipeline_def callAgent_def research_request_def pipeline_failed_def Let_def)

lemma runPipeline_outline_failed:
  assumes "sources s \<noteq> []"
    and "read_response (fetch (research_request s)) = Inr analysis"
    and "read_response (fetch (outline_request s analysis)) = Inl m"
  shows "runPipeline fetch s =
    (s\<lparr>view := Pipeline, researchAnalysis := analysis, outline := [], draft := [],
       error := lit ''Pipeline failed at stage '' @ show_nat (pipelineStage s) @ lit '': '' @ m,
       pipelineStage := 0\<rparr>, [research_request s, outline_request s analysis])"
  using assms
  by (simp add: runPipeline_def callAgent_def research_request_def outline_request_def
      pipeline_failed_def Let_def)

lemma runPipeline_writing_failed:
  assumes "sources s \<noteq> []"
    and "read_response (fetch (research_request s)) = Inr analysis"
    and "read_response (fetch (outline_request s analysis)) = Inr outlineResult"
    and "read_response (fetch (writing_request s analysis outlineResult)) = Inl m"
  shows "runPipeline fetch s =
    (s\<lparr>view := Pipeline, researchAnalysis := analysis, outline := outlineResult, draft := [],
       error := lit ''Pipeline failed at stage '' @ show_nat (pipelineStage s) @ lit '': '' @ m,
       pipelineStage := 0\<rparr>,
     [research_request s, outline_request s analysis, writing_request s analysis outlineResult])"
  using assms
  by (simp add: runPipeline_def callAgent_def research_request_def outline_request_def
      writing_request_def pipeline_failed_def Let_def)

lemma runPipeline_completed:
  assumes "sources s \<noteq> []"
    and "read_response (fetch (research_request s)) = Inr analysis"
    and "read_response (fetch (outline_request s analysis)) = Inr outlineResult"
    and "read_response (fetch (writing_request s analysis outlineResult)) = Inr draftResult"
  shows "runPipeline fetch s =
    (s\<lparr>view := Pipeline, researchAnalysis := analysis, outline := outlineResult,
       draft := draftResult, error := [], pipelineStage := 4\<rparr>,
     [research_request s, outline_request s analysis, writing_request s analysis outlineResult])"
  using assms
  by (simp add: runPipeline_def callAgent_def research_request_def outline_request_def
      writing_request_def Let_def)

lemma replying_answers: "read_response (replying t req) = Inr t"
  by (cases "t = []") (simp_all add: read_response_def replying_def extract_text_def block_text_def)

lemma unavailable_fails: "read_response (unavailable req) = Inl (lit ''API '' @ show_nat 529)"
  by (simp add: read_response_def unavailable_def)

lemma lit_Nil_iff: "lit cs = [] \<longleftrightarrow> cs = []"
  by (simp add: lit_def)

section \<open>Properties\<close>

text \<open>
  C1. In a refinement turn whose agent call succeeds, the draft becomes the response exactly
  when the response is longer than half the draft, and stays as it was otherwise. For a
  draft of 1000 code units a response of 600 replaces it and one of 400 does not.
\<close>

theorem refinement_rewrites_draft_iff_over_half:
  assumes "trim (chatInput s) \<noteq> []" and "\<not> chatLoading s"
    and "read_response (fetch (chat_request s)) = Inr response"
  shows "draft (fst (sendChat fetch s)) =
           (if real (length response) > real (length (draft s)) / 2 then response else draft s)"
  using assms by (simp add: sendChat_answered full_revision_def)

theorem refinement_rewrites_draft_iff_over_half_witness:
  "trim (chatInput drafted) \<noteq> [] \<and> \<not> chatLoading drafted
   \<and> length (draft drafted) = 1000
   \<and> draft (fst (sendChat (replying (replicate 600 0x62)) drafted)) = replicate 600 0x62
   \<and> draft (fst (sendChat (replying (replicate 400 0x62)) drafted)) = draft drafted"
proof -
  have g: "trim (chatInput drafted) \<noteq> []"
    by (simp add: drafted_def idle_def initial_state_def trim_def lit_def is_ws_def)
  have l: "\<not> chatLoading drafted"
    by (simp add: drafted_def idle_def initial_state_def)
  have d: "length (draft drafted) = 1000"
    by (simp add: drafted_def idle_def initial_state_def)
  have a: "draft (fst (sendChat (replying (replicate 600 0x62)) drafted)) = replicate 600 0x62"
    using refinement_rewrites_draft_iff_over_half
            [where fetch = "replying (replicate 600 0x62)" and s = drafted, OF g l replying_answers] d
    by simp
  have b: "draft (fst (sendChat (replying (replicate 400 0x62)) drafted)) = draft drafted"
    using refinement_rewrites_draft_iff_over_half
            [where fetch = "replying (replicate 400 0x62)" and s = drafted, OF g l replying_answers] d
    by simp
  from g l d a b show ?thesis by blast
qed

text \<open>
  C2. When the Research call succeeds and the Outline call fails, the run ends with the
  stage marker at 0, \<open>researchAnalysis\<close> holding the Research result, and \<open>outline\<close> and
  \<open>draft\<close> empty; the failure records its message and clears nothing. Exactly the two
  requests have been issued.
\<close>

theorem outline_failure_keeps_research:
  assumes "sources s \<noteq> []"
    and "read_response (fetch (research_request s)) = Inr analysis"
    and "read_response (fetch (outline_request s analysis)) = Inl m"
  shows "pipelineStage (fst (runPipeline fetch s)) = 0
       \<and> researchAnalysis (fst (runPipeline fetch s)) = analysis
       \<and> outline (fst (runPipeline fetch s)) = []
       \<and> draft (fst (runPipeline fetch s)) = []
       \<and> error (fst (runPipeline fetch s)) =
           lit ''Pipeline failed at stage '' @ show_nat (pipelineStage s) @ lit '': '' @ m
       \<and> snd (runPipeline fetch s) = [research_request s, outline_request s analysis]"
  using assms by (simp add: runPipeline_outline_failed)

theorem outline_failure_keeps_research_witness:
  "sources collected \<noteq> []
   \<and> pipelineStage (fst (runPipeline outline_down collected)) = 0
   \<and> researchAnalysis (fst (runPipeline outline_down collected)) = lit ''analysis''
   \<and> researchAnalysis (fst (runPipeline outline_down collected)) \<noteq> []
   \<and> outline (fst (runPipeline outline_down collected)) = []
   \<and> draft (fst (runPipeline outline_down collected)) = []"
proof -
  have n: "sources collected \<noteq> []"
    by (simp add: collected_def)
  have r: "read_response (outline_down (research_request collected)) = Inr (lit ''analysis'')"
    by (simp add: outline_down_def research_request_def replying_answers)
  have f: "read_response (outline_down (outline_request collected (lit ''analysis'')))
             = Inl (lit ''API '' @ show_nat 529)"
    by (simp add: outline_down_def outline_request_def unavailable_fails)
  from outline_failure_keeps_research [where fetch = outline_down, OF n r f] n show ?thesis
    by (simp add: lit_Nil_iff)
qed

text \<open>
  C3. Invoked on an empty working set, \<open>runPipeline\<close> issues no request, leaves the stage
  marker as it was (an idle marker 0 remains 0), and changes nothing of the state but the
  error cell, which receives the validation message; no pipeline artifact is touched.
\<close>

theorem empty_sources_refused:
  assumes "sources s = []"
  shows "snd (runPipeline fetch s) = []
       \<and> pipelineStage (fst (runPipeline fetch s)) = pipelineStage s
       \<and> (pipelineStage s = 0 \<longrightarrow> pipelineStage (fst (runPipeline fetch s)) = 0)
       \<and> error (fst (runPipeline fetch s)) = lit ''Add at least one source first.''
       \<and> fst (runPipeline fetch s) = s\<lparr>error := lit ''Add at least one source first.''\<rparr>
       \<and> researchAnalysis (fst (runPipeline fetch s)) = researchAnalysis s
       \<and> outline (fst (runPipeline fetch s)) = outline s
       \<and> draft (fst (runPipeline fetch s)) = draft s"
  using assms by (simp add: runPipeline_refused)

theorem empty_sources_refused_witness:
  "sources idle = [] \<and> pipelineStage idle = 0
   \<and> snd (runPipeline (replying (lit ''text'')) idle) = []
   \<and> pipelineStage (fst (runPipeline (replying (lit ''text'')) idle)) = 0
   \<and> error (fst (runPipeline (replying (lit ''text'')) idle)) = lit ''Add at least one source first.''"
proof -
  have e: "sources idle = []" by (simp add: idle_def initial_state_def)
  have z: "pipelineStage idle = 0" by (simp add: idle_def initial_state_def)
  from empty_sources_refused [where fetch = "replying (lit ''text'')", OF e] e z show ?thesis by simp
qed

lemma newSources_filter:
  "newSources existing incoming = filter (\<lambda>s. src_id s \<notin> src_id ` set existing) incoming"
  unfolding newSources_def by (rule filter_cong) (force simp: find_None_iff image_iff)+

lemma newSources_again: "newSources (existing @ newSources existing incoming) incoming = []"
  by (auto simp: newSources_filter filter_empty_conv)

lemma saveSourcesAll_sources:
  "lib_sources (library (saveSourcesAll js s)) = mergeSources (lib_sources (library s)) (sources s)"
  by (simp add: saveSourcesAll_def mergeSources_def Let_def)

lemma saveSourcesAll_working: "sources (saveSourcesAll js s) = sources s"
  by (simp add: saveSourcesAll_def Let_def)

text \<open>
  C4. Merging an incoming list into the library's sources keeps the library's records in
  their order, drops every incoming record whose id the library already has and appends the
  others; merging the same list once more changes nothing. \<open>saveSourcesAll\<close> performs this
  merge on the working set, and running it twice leaves the state of running it once.
\<close>

theorem merge_drops_known_ids_and_is_idempotent:
  "mergeSources L S = L @ filter (\<lambda>s. src_id s \<notin> src_id ` set L) S
   \<and> mergeSources (mergeSources L S) S = mergeSources L S
   \<and> lib_sources (library (saveSourcesAll js s)) = mergeSources (lib_sources (library s)) (sources s)
   \<and> saveSourcesAll js (saveSourcesAll js s) = saveSourcesAll js s"
proof -
  have a: "mergeSources L S = L @ filter (\<lambda>s. src_id s \<notin> src_id ` set L) S"
    by (simp add: mergeSources_def newSources_filter)
  have b: "mergeSources (mergeSources L S) S = mergeSources L S"
    by (simp add: mergeSources_def newSources_again)
  have "newSources (lib_sources (library (saveSourcesAll js s))) (sources (saveSourcesAll js s)) = []"
    by (simp add: saveSourcesAll_sources saveSourcesAll_working mergeSources_def newSources_again)
  then have d: "saveSourcesAll js (saveSourcesAll js s) = saveSourcesAll js s"
    by (simp add: saveSourcesAll_def [of js "saveSourcesAll js s"])
  from a b saveSourcesAll_sources d show ?thesis by blast
qed

theorem merge_drops_known_ids_and_is_idempotent_witness:
  "mergeSources [sample_source] [sample_note, sample_source] = [sample_source, sample_note]
   \<and> mergeSources (mergeSources [sample_source] [sample_note, sample_source])
        [sample_note, sample_source]
     = [sample_source, sample_note]"
proof -
  note m = merge_drops_known_ids_and_is_idempotent
             [of "[sample_source]" "[sample_note, sample_source]" sample_json idle]
  have a: "mergeSources [sample_source] [sample_note, sample_source] = [sample_source, sample_note]"
    using m [THEN conjunct1] by (simp add: sample_source_def sample_note_def lit_def)
  have b: "mergeSources (mergeSources [sample_source] [sample_note, sample_source])
             [sample_note, sample_source]
           = mergeSources [sample_source] [sample_note, sample_source]"
    using m [THEN conjunct2, THEN conjunct1] .
  from a b show ?thesis by simp
qed

lemma saveLibrary_accepted:
  "\<not> full st \<Longrightarrow> getItem (saveLibrary js lib st) STORAGE_KEY = Some (stringify js lib)"
  by (simp add: saveLibrary_def setItem_def getItem_def)

lemma saveLibrary_refused: "full st \<Longrightarrow> saveLibrary js lib st = st"
  by (simp add: saveLibrary_def setItem_def)

lemma addNote_blank: "trim (noteInput s) = [] \<Longrightarrow> addNote js uid now s = s"
  by (simp add: addNote_def)

lemma addNote_sources:
  "trim (noteInput s) \<noteq> [] \<Longrightarrow>
   sources (addNote js uid now s) = sources s @
     [\<lparr>src_id = uid, src_type = Note,
       src_title = (if noteTitle s = [] then lit ''Note'' else noteTitle s),
       src_content = noteInput s, src_date = now\<rparr>]"
  by (simp add: addNote_def Let_def)

lemma addNote_library:
  "trim (noteInput s) \<noteq> [] \<Longrightarrow>
   library (addNote js uid now s) = (library s)\<lparr>lib_notes := lib_notes (library s) @
     [\<lparr>src_id = uid, src_type = Note,
       src_title = (if noteTitle s = [] then lit ''Note'' else noteTitle s),
       src_content = noteInput s, src_date = now\<rparr>]\<rparr>"
  by (simp add: addNote_def Let_def)

lemma addNote_storage:
  "trim (noteInput s) \<noteq> [] \<Longrightarrow>
   localStorage (addNote js uid now s) =
     saveLibrary js (library (addNote js uid now s)) (localStorage s)"
  by (simp add: addNote_def Let_def)

text \<open>
  C5. When the note text has a code unit that is not whitespace, \<open>addNote\<close> appends one and
  the same record of type note to the working set and to the library's notes, in one
  action, and hands the new library to the store (which holds it under the storage key
  unless it refuses the write); the other two lists are untouched. When the text is
  whitespace only, \<open>addNote\<close> changes nothing.
\<close>

theorem note_reaches_working_set_and_library:
  "((\<exists>c\<in>set (noteInput s). \<not> is_ws c) \<longrightarrow>
      (\<exists>note. src_type note = Note \<and> src_id note = uid \<and> src_content note = noteInput s
         \<and> sources (addNote js uid now s) = sources s @ [note]
         \<and> lib_notes (library (addNote js uid now s)) = lib_notes (library s) @ [note]
         \<and> lib_sources (library (addNote js uid now s)) = lib_sources (library s)
         \<and> lib_drafts (library (addNote js uid now s)) = lib_drafts (library s)
         \<and> (\<not> full (localStorage s) \<longrightarrow>
              getItem (localStorage (addNote js uid now s)) STORAGE_KEY
                = Some (stringify js (library (addNote js uid now s))))))
   \<and> ((\<forall>c\<in>set (noteInput s). is_ws c) \<longrightarrow> addNote js uid now s = s)"
  (is "(?nonblank \<longrightarrow> (\<exists>note. ?appended note)) \<and> (?blank \<longrightarrow> ?same)")
proof (intro conjI impI)
  assume ?nonblank
  then have t: "trim (noteInput s) \<noteq> []"
    by (simp add: trim_empty_iff)
  let ?n = "\<lparr>src_id = uid, src_type = Note,
             src_title = (if noteTitle s = [] then lit ''Note'' else noteTitle s),
             src_content = noteInput s, src_date = now\<rparr>"
  have 1: "sources (addNote js uid now s) = sources s @ [?n]"
    using t by (rule addNote_sources)
  have l: "library (addNote js uid now s) = (library s)\<lparr>lib_notes := lib_notes (library s) @ [?n]\<rparr>"
    using t by (rule addNote_library)
  have 2: "lib_notes (library (addNote js uid now s)) = lib_notes (library s) @ [?n]"
    by (simp add: l)
  have 3: "lib_sources (library (addNote js uid now s)) = lib_sources (library s)"
    by (simp add: l)
  have 4: "lib_drafts (library (addNote js uid now s)) = lib_drafts (library s)"
    by (simp add: l)
  have 5: "\<not> full (localStorage s) \<longrightarrow>
             getItem (localStorage (addNote js uid now s)) STORAGE_KEY
               = Some (stringify js (library (addNote js uid now s)))"
  proof
    assume "\<not> full (localStorage s)"
    then show "getItem (localStorage (addNote js uid now s)) STORAGE_KEY
                 = Some (stringify js (library (addNote js uid now s)))"
      unfolding addNote_storage [OF t] by (rule saveLibrary_accepted)
  qed
  have 6: "src_type ?n = Note" and 7: "src_id ?n = uid" and 8: "src_content ?n = noteInput s"
    by simp_all
  from 6 7 8 1 2 3 4 5 have ap: "?appended ?n"
    by blast
  show "\<exists>note. ?appended note"
    by (rule exI [where x = ?n]) (rule ap)
next
  assume ?blank
  then have "trim (noteInput s) = []"
    by (simp add: trim_empty_iff)
  then show ?same by (rule addNote_blank)
qed

theorem note_reaches_working_set_and_library_witness:
  "trim (noteInput noting) \<noteq> [] \<and> \<not> full (localStorage noting)
   \<and> length (sources (addNote sample_json new_id new_date noting)) = 1
   \<and> src_type (last (sources (addNote sample_json new_id new_date noting))) = Note
   \<and> lib_notes (library (addNote sample_json new_id new_date noting))
       = sample_note # sources (addNote sample_json new_id new_date noting)
   \<and> getItem (localStorage (addNote sample_json new_id new_date noting)) STORAGE_KEY
       = Some (stringify sample_json (library (addNote sample_json new_id new_date noting)))
   \<and> addNote sample_json new_id new_date (noting\<lparr>noteInput := lit ''  ''\<rparr>)
       = noting\<lparr>noteInput := lit ''  ''\<rparr>"
proof -
  let ?s' = "addNote sample_json new_id new_date noting"
  let ?b = "noting\<lparr>noteInput := lit ''  ''\<rparr>"
  have i: "noteInput noting = lit ''again''"
    by (simp add: noting_def idle_def initial_state_def)
  have t: "trim (noteInput noting) \<noteq> []"
    by (simp add: i trim_def lit_def is_ws_def)
  have c: "\<exists>c\<in>set (noteInput noting). \<not> is_ws c"
    using t by (simp add: trim_empty_iff)
  have f: "\<not> full (localStorage noting)"
    by (simp add: noting_def idle_def initial_state_def empty_storage_def)
  have w: "\<forall>c\<in>set (noteInput ?b). is_ws c"
    by (simp add: lit_def is_ws_def)
  have s0: "sources noting = []" and n0: "lib_notes (library noting) = [sample_note]"
    by (simp_all add: noting_def idle_def initial_state_def sample_library_def)
  from note_reaches_working_set_and_library
         [of noting new_id sample_json new_date, THEN conjunct1] c
  obtain nt where "src_type nt = Note" and "sources ?s' = sources noting @ [nt]"
    and "lib_notes (library ?s') = lib_notes (library noting) @ [nt]"
    and "\<not> full (localStorage noting) \<longrightarrow>
           getItem (localStorage ?s') STORAGE_KEY = Some (stringify sample_json (library ?s'))"
    by blast
  with s0 n0 f have 1: "length (sources ?s') = 1" and 2: "src_type (last (sources ?s')) = Note"
    and 3: "lib_notes (library ?s') = sample_note # sources ?s'"
    and 4: "getItem (localStorage ?s') STORAGE_KEY = Some (stringify sample_json (library ?s'))"
    by simp_all
  from note_reaches_working_set_and_library
         [of ?b new_id sample_json new_date, THEN conjunct2] w
  have 5: "addNote sample_json new_id new_date ?b = ?b"
    by blast
  from t f 1 2 3 4 5 show ?thesis by blast
qed

lemma render_source_entry: "render_source i s = spec_entry (Suc i) s"
  by (simp add: render_source_def spec_entry_def lit_def)

lemma allContent_from:
  "join (lit ''\<newline>\<newline>'') (map (\<lambda>(i, s). render_source i s) (enumerate n srcs))
     = spec_corpus_from (Suc n) srcs"
proof (induction srcs arbitrary: n)
  case Nil
  show ?case by simp
next
  case (Cons a srcs)
  show ?case
  proof (cases srcs)
    case Nil
    then show ?thesis by (simp add: render_source_entry)
  next
    case (Cons b rest)
    with Cons.IH [of "Suc n"] show ?thesis
      by (simp add: render_source_entry)
  qed
qed

lemma allContent_spec: "allContent srcs = spec_corpus srcs"
  by (simp add: allContent_def spec_corpus_def allContent_from)

lemma runPipeline_requests:
  assumes "sources s \<noteq> []"
  shows "snd (runPipeline fetch s) =
           research_request s #
           (case read_response (fetch (research_request s)) of
              Inl m \<Rightarrow> []
            | Inr analysis \<Rightarrow>
                outline_request s analysis #
                (case read_response (fetch (outline_request s analysis)) of
                   Inl m \<Rightarrow> []
                 | Inr outlineResult \<Rightarrow> [writing_request s analysis outlineResult]))"
proof (cases "read_response (fetch (research_request s))")
  case (Inl m)
  with assms show ?thesis by (simp add: runPipeline_research_failed)
next
  case (Inr analysis)
  note r = this
  show ?thesis
  proof (cases "read_response (fetch (outline_request s analysis))")
    case (Inl m)
    with assms r show ?thesis by (simp add: runPipeline_outline_failed)
  next
    case (Inr outlineResult)
    note ou = this
    show ?thesis
    proof (cases "read_response (fetch (writing_request s analysis outlineResult))")
      case (Inl m)
      with assms r ou show ?thesis by (simp add: runPipeline_writing_failed)
    next
      case (Inr draftResult)
      with assms r ou show ?thesis by (simp add: runPipeline_completed)
    qed
  qed
qed

text \<open>
  C6. For a non-empty working set the first request of a run goes to the Research agent and
  carries a single user message: the sources rendered as \<open>--- SOURCE i: <title> ---\<close>, a line
  break and the content, numbered from 1, joined by blank lines, followed by the topic
  annotation when a topic is set.
\<close>

theorem research_corpus_is_numbered_sources_and_angle:
  assumes "sources s \<noteq> []"
  shows "\<exists>rest. snd (runPipeline fetch s) =
           \<lparr>system = RESEARCH_AGENT,
            messages = [\<lparr>role = User,
                         content = spec_corpus (sources s)
                                   @ (if topicAngle s = [] then []
                                      else lit ''\<newline>\<newline>TOPIC/ANGLE: '' @ topicAngle s)\<rparr>],
            max_tokens = 4000, tools = []\<rparr> # rest"
  using runPipeline_requests [OF assms, of fetch]
  by (simp add: research_request_def allContent_spec angleStr_def)

theorem research_corpus_is_numbered_sources_and_angle_witness:
  "sources collected \<noteq> []
   \<and> messages (hd (snd (runPipeline (replying (lit ''text'')) collected))) =
       [\<lparr>role = User,
         content = lit ''--- SOURCE 1: Paper ---\<newline>body\<newline>\<newline>--- SOURCE 2: Note ---\<newline>idea\<newline>\<newline>TOPIC/ANGLE: AI''\<rparr>]"
proof -
  have n: "sources collected \<noteq> []"
    by (simp add: collected_def)
  have c: "spec_corpus (sources collected)
             = lit ''--- SOURCE 1: Paper ---\<newline>body\<newline>\<newline>--- SOURCE 2: Note ---\<newline>idea''"
    by (simp add: collected_def spec_corpus_def spec_entry_def sample_source_def sample_note_def
        show_nat.simps digit_def lit_def)
  have a: "topicAngle collected = lit ''AI''"
    by (simp add: collected_def)
  from research_corpus_is_numbered_sources_and_angle [OF n, of "replying (lit ''text'')"]
  obtain rest where "snd (runPipeline (replying (lit ''text'')) collected) =
           \<lparr>system = RESEARCH_AGENT,
            messages = [\<lparr>role = User,
                         content = spec_corpus (sources collected)
                                   @ (if topicAngle collected = [] then []
                                      else lit ''\<newline>\<newline>TOPIC/ANGLE: '' @ topicAngle collected)\<rparr>],
            max_tokens = 4000, tools = []\<rparr> # rest"
    by blast
  then have "messages (hd (snd (runPipeline (replying (lit ''text'')) collected))) =
       [\<lparr>role = User,
         content = lit ''--- SOURCE 1: Paper ---\<newline>body\<newline>\<newline>--- SOURCE 2: Note ---\<newline>idea\<newline>\<newline>TOPIC/ANGLE: AI''\<rparr>]"
    by (simp add: c a) (simp add: lit_def)
  with n show ?thesis by blast
qed

lemma FORMATS_ids:
  "map fmt_id FORMATS = [lit ''blog'', lit ''thread'', lit ''newsletter'', lit ''outline'']"
  by (simp add: FORMATS_def)

lemma selectFormat_chip:
  "k < length FORMATS \<Longrightarrow> selectedFormat (selectFormat k s) = fmt_id (FORMATS ! k)"
  by (simp add: selectFormat_def)

lemma selectFormat_member:
  "selectedFormat s \<in> set (map fmt_id FORMATS) \<Longrightarrow>
   selectedFormat (selectFormat k s) \<in> set (map fmt_id FORMATS)"
proof (cases "k < length FORMATS")
  case True
  then have "map fmt_id FORMATS ! k \<in> set (map fmt_id FORMATS)"
    by (simp only: nth_mem length_map)
  with True show ?thesis
    by (simp only: selectFormat_chip nth_map)
next
  case False
  then show "selectedFormat s \<in> set (map fmt_id FORMATS) \<Longrightarrow> ?thesis"
    by (simp add: selectFormat_def)
qed

text \<open>
  C7, as stated, fails: \<open>outline-only\<close> is not among the ids of \<open>FORMATS\<close>, whose fourth id is
  \<open>outline\<close> (labelled \<open>Outline Only\<close>).
\<close>

theorem format_ids_counterexample:
  "lit ''outline-only'' \<notin> set (map fmt_id FORMATS)
   \<and> set (map fmt_id FORMATS)
       \<noteq> {lit ''blog'', lit ''thread'', lit ''newsletter'', lit ''outline-only''}"
proof -
  have a: "lit ''outline-only'' \<notin> set (map fmt_id FORMATS)"
    by (simp add: FORMATS_def lit_def)
  then have "set (map fmt_id FORMATS)
       \<noteq> {lit ''blog'', lit ''thread'', lit ''newsletter'', lit ''outline-only''}"
    by blast
  with a show ?thesis by blast
qed

text \<open>
  C7, amended. The format selector takes its values from exactly \<open>blog\<close>, \<open>thread\<close>,
  \<open>newsletter\<close> and \<open>outline\<close>: it starts at \<open>blog\<close>, and a click on a chip sets it to that
  chip's id. Whatever value it holds is handed verbatim to the Outline and the Writing
  stage inside the directive \<open>Output format requested: <value>\<close>; for every format the run
  issues the Writing request once the Outline has succeeded.
\<close>

theorem format_selector_values_and_directive:
  "set (map fmt_id FORMATS) = {lit ''blog'', lit ''thread'', lit ''newsletter'', lit ''outline''}
   \<and> selectedFormat (initial_state st) \<in> set (map fmt_id FORMATS)
   \<and> (selectedFormat s \<in> set (map fmt_id FORMATS) \<longrightarrow>
        selectedFormat (selectFormat k s) \<in> set (map fmt_id FORMATS))
   \<and> (k < length FORMATS \<longrightarrow> selectedFormat (selectFormat k s) = fmt_id (FORMATS ! k))
   \<and> (sources s \<noteq> [] \<and> read_response (fetch (research_request s)) = Inr analysis \<longrightarrow>
        (\<exists>rest. snd (runPipeline fetch s) =
           research_request s #
           \<lparr>system = OUTLINE_AGENT,
            messages = [\<lparr>role = User,
                         content = lit ''RESEARCH ANALYSIS:\<newline>'' @ analysis @ lit ''\<newline>\<newline>''
                                   @ lit ''Output format requested: '' @ selectedFormat s
                                   @ angleStr (topicAngle s)\<rparr>],
            max_tokens = 4000, tools = []\<rparr> # rest))
   \<and> (sources s \<noteq> [] \<and> read_response (fetch (research_request s)) = Inr analysis
        \<and> read_response (fetch (outline_request s analysis)) = Inr outlineResult \<longrightarrow>
        snd (runPipeline fetch s) =
          [research_request s, outline_request s analysis,
           \<lparr>system = WRITING_AGENT,
            messages = [\<lparr>role = User,
                         content = lit ''RESEARCH ANALYSIS:\<newline>'' @ analysis
                                   @ lit ''\<newline>\<newline>OUTLINE:\<newline>'' @ outlineResult @ lit ''\<newline>\<newline>''
                                   @ lit ''Output format requested: '' @ selectedFormat s
                                   @ angleStr (topicAngle s)\<rparr>],
            max_tokens = 4000, tools = []\<rparr>])"
  (is "?ids \<and> ?init \<and> ?closed \<and> ?chip \<and> ?outl \<and> ?writ")
proof -
  have 1: ?ids
    by (simp add: FORMATS_ids)
  have 2: ?init
    by (simp add: FORMATS_ids initial_state_def)
  have 3: ?closed
    using selectFormat_member by blast
  have 4: ?chip
    using selectFormat_chip by blast
  have 5: ?outl
  proof
    assume h: "sources s \<noteq> [] \<and> read_response (fetch (research_request s)) = Inr analysis"
    then have "snd (runPipeline fetch s) =
           research_request s # outline_request s analysis #
             (case read_response (fetch (outline_request s analysis)) of
                   Inl m \<Rightarrow> []
                 | Inr outlineResult \<Rightarrow> [writing_request s analysis outlineResult])"
      by (simp add: runPipeline_requests)
    then show "\<exists>rest. snd (runPipeline fetch s) =
           research_request s #
           \<lparr>system = OUTLINE_AGENT,
            messages = [\<lparr>role = User,
                         content = lit ''RESEARCH ANALYSIS:\<newline>'' @ analysis @ lit ''\<newline>\<newline>''
                                   @ lit ''Output format requested: '' @ selectedFormat s
                                   @ angleStr (topicAngle s)\<rparr>],
            max_tokens = 4000, tools = []\<rparr> # rest"
      by (simp add: outline_request_def formatNote_def)
  qed
  have 6: ?writ
  proof
    assume h: "sources s \<noteq> [] \<and> read_response (fetch (research_request s)) = Inr analysis
        \<and> read_response (fetch (outline_request s analysis)) = Inr outlineResult"
    then have "snd (runPipeline fetch s) =
      [research_request s, outline_request s analysis, writing_request s analysis outlineResult]"
      by (simp add: runPipeline_requests)
    then show "snd (runPipeline fetch s) =
          [research_request s, outline_request s analysis,
           \<lparr>system = WRITING_AGENT,
            messages = [\<lparr>role = User,
                         content = lit ''RESEARCH ANALYSIS:\<newline>'' @ analysis
                                   @ lit ''\<newline>\<newline>OUTLINE:\<newline>'' @ outlineResult @ lit ''\<newline>\<newline>''
                                   @ lit ''Output format requested: '' @ selectedFormat s
                                   @ angleStr (topicAngle s)\<rparr>],
            max_tokens = 4000, tools = []\<rparr>]"
      by (simp add: writing_request_def formatNote_def)
  qed
  from 1 2 3 4 5 6 show ?thesis by blast
qed

theorem format_selector_values_and_directive_witness:
  "sources (selectFormat 3 collected) \<noteq> []
   \<and> selectedFormat (selectFormat 3 collected) = lit ''outline''
   \<and> snd (runPipeline (replying (lit ''text'')) (selectFormat 3 collected)) ! 2 =
       \<lparr>system = WRITING_AGENT,
        messages = [\<lparr>role = User,
                     content = lit ''RESEARCH ANALYSIS:\<newline>text\<newline>\<newline>OUTLINE:\<newline>text\<newline>\<newline>Output format requested: outline\<newline>\<newline>TOPIC/ANGLE: AI''\<rparr>],
        max_tokens = 4000, tools = []\<rparr>"
proof -
  let ?s = "selectFormat 3 collected"
  let ?f = "replying (lit ''text'')"
  have k: "(3::nat) < length FORMATS"
    by (simp add: FORMATS_def)
  from format_selector_values_and_directive [where s = collected and k = 3] k
  have "selectedFormat ?s = fmt_id (FORMATS ! 3)"
    by blast
  then have f: "selectedFormat ?s = lit ''outline''"
    by (simp add: FORMATS_def)
  have n: "sources ?s \<noteq> []" and a: "topicAngle ?s = lit ''AI''"
    by (simp_all add: selectFormat_def collected_def)
  from format_selector_values_and_directive
         [where s = ?s and fetch = ?f and analysis = "lit ''text''" and outlineResult = "lit ''text''"]
       n replying_answers
  have "snd (runPipeline ?f ?s) =
          [research_request ?s, outline_request ?s (lit ''text''),
           \<lparr>system = WRITING_AGENT,
            messages = [\<lparr>role = User,
                         content = lit ''RESEARCH ANALYSIS:\<newline>'' @ lit ''text''
                                   @ lit ''\<newline>\<newline>OUTLINE:\<newline>'' @ lit ''text'' @ lit ''\<newline>\<newline>''
                                   @ lit ''Output format requested: '' @ selectedFormat ?s
                                   @ angleStr (topicAngle ?s)\<rparr>],
            max_tokens = 4000, tools = []\<rparr>]"
    by blast
  then have "snd (runPipeline ?f ?s) ! 2 =
       \<lparr>system = WRITING_AGENT,
        messages = [\<lparr>role = User,
                     content = lit ''RESEARCH ANALYSIS:\<newline>text\<newline>\<newline>OUTLINE:\<newline>text\<newline>\<newline>Output format requested: outline\<newline>\<newline>TOPIC/ANGLE: AI''\<rparr>],
        max_tokens = 4000, tools = []\<rparr>"
    by (simp add: f a angleStr_def) (simp add: lit_def)
  with n f show ?thesis by blast
qed

lemma deleteLibItem_library:
  "library (deleteLibItem js cat i s) =
     (case cat of
        Drafts \<Rightarrow> (library s)\<lparr>lib_drafts := filter (\<lambda>x. d_id x \<noteq> i) (lib_drafts (library s))\<rparr>
      | Sources \<Rightarrow> (library s)\<lparr>lib_sources := filter (\<lambda>x. src_id x \<noteq> i) (lib_sources (library s))\<rparr>
      | Notes \<Rightarrow> (library s)\<lparr>lib_notes := filter (\<lambda>x. src_id x \<noteq> i) (lib_notes (library s))\<rparr>)"
  by (simp add: deleteLibItem_def Let_def)

lemma deleteLibItem_unique:
  "unique_ids (library s) \<Longrightarrow> unique_ids (library (deleteLibItem js cat i s))"
  by (cases cat) (simp_all add: deleteLibItem_library unique_ids_def distinct_map_filter)

lemma distinct_mergeSources:
  assumes "distinct (map src_id L)" and "distinct (map src_id S)"
  shows "distinct (map src_id (mergeSources L S))"
proof -
  have "distinct (map src_id (filter (\<lambda>s. src_id s \<notin> src_id ` set L) S))"
    using assms(2) by (rule distinct_map_filter)
  moreover have "src_id ` set L \<inter> src_id ` set (filter (\<lambda>s. src_id s \<notin> src_id ` set L) S) = {}"
    by (force simp: image_iff)
  ultimately show ?thesis
    using assms(1) by (simp add: mergeSources_def newSources_filter)
qed

lemma saveSourcesAll_unique:
  assumes "unique_ids (library s)" and "distinct (map src_id (sources s))"
  shows "unique_ids (library (saveSourcesAll js s))"
proof -
  have "lib_drafts (library (saveSourcesAll js s)) = lib_drafts (library s)"
    and "lib_notes (library (saveSourcesAll js s)) = lib_notes (library s)"
    by (simp_all add: saveSourcesAll_def Let_def)
  with assms show ?thesis
    by (simp add: unique_ids_def saveSourcesAll_sources distinct_mergeSources)
qed

lemma addNote_unique_iff:
  assumes "unique_ids (library s)"
  shows "unique_ids (library (addNote js uid now s)) \<longleftrightarrow>
           trim (noteInput s) = [] \<or> uid \<notin> src_id ` set (lib_notes (library s))"
proof (cases "trim (noteInput s) = []")
  case True
  with assms show ?thesis by (simp add: addNote_blank)
next
  case False
  with assms show ?thesis
    by (simp add: addNote_library unique_ids_def)
qed

lemma saveDraft_library:
  "draft s \<noteq> [] \<Longrightarrow>
   library (saveDraft js uid now s) = (library s)\<lparr>lib_drafts := lib_drafts (library s) @
     [\<lparr>d_id = uid,
       d_title = (if topicAngle s = [] then lit ''Untitled draft'' else topicAngle s),
       d_content = draft s, d_outline = outline s, d_analysis = researchAnalysis s,
       d_date = now, d_format = selectedFormat s\<rparr>]\<rparr>"
  by (simp add: saveDraft_def Let_def)

lemma saveDraft_unique_iff:
  assumes "unique_ids (library s)"
  shows "unique_ids (library (saveDraft js uid now s)) \<longleftrightarrow>
           draft s = [] \<or> uid \<notin> d_id ` set (lib_drafts (library s))"
proof (cases "draft s = []")
  case True
  with assms show ?thesis by (simp add: saveDraft_def)
next
  case False
  with assms show ?thesis
    by (simp add: saveDraft_library unique_ids_def)
qed

text \<open>
  C8, as stated, fails: \<open>addNote\<close> does not skip a record whose id is already in the notes
  list. From a library with unique ids, a note whose generated id equals that of a stored
  note is appended all the same, and the ids of the notes list are no longer unique.
\<close>

theorem note_with_known_id_counterexample:
  "unique_ids (library noting)
   \<and> \<not> unique_ids (library (addNote sample_json (src_id sample_note) (src_date sample_note) noting))"
proof -
  have u: "unique_ids (library noting)"
    by (simp add: noting_def idle_def initial_state_def sample_library_def unique_ids_def)
  have t: "trim (noteInput noting) \<noteq> []"
    by (simp add: noting_def idle_def initial_state_def trim_def lit_def is_ws_def)
  have "src_id sample_note \<in> src_id ` set (lib_notes (library noting))"
    by (simp add: noting_def idle_def initial_state_def sample_library_def)
  with t have "\<not> unique_ids (library (addNote sample_json (src_id sample_note) (src_date sample_note) noting))"
    by (simp add: addNote_unique_iff [OF u])
  with u show ?thesis by blast
qed

text \<open>
  C8, amended. From a library whose three lists have unique ids: deleting an item keeps
  them unique; \<open>saveSourcesAll\<close> appends exactly the working-set records whose id is not yet
  in the library's sources, and keeps the ids unique when those of the working set are
  pairwise distinct; \<open>addNote\<close> and \<open>saveDraft\<close> append their new record without a check, and
  the ids stay unique exactly when the action does nothing or the generated id is not yet
  in the target list.
\<close>

theorem library_ids_stay_unique:
  assumes "unique_ids (library s)"
  shows "unique_ids (library (deleteLibItem js cat i s))
       \<and> lib_sources (library (saveSourcesAll js s))
           = lib_sources (library s)
             @ filter (\<lambda>x. src_id x \<notin> src_id ` set (lib_sources (library s))) (sources s)
       \<and> (distinct (map src_id (sources s)) \<longrightarrow> unique_ids (library (saveSourcesAll js s)))
       \<and> (unique_ids (library (addNote js uid now s)) \<longleftrightarrow>
            trim (noteInput s) = [] \<or> uid \<notin> src_id ` set (lib_notes (library s)))
       \<and> (unique_ids (library (saveDraft js uid now s)) \<longleftrightarrow>
            draft s = [] \<or> uid \<notin> d_id ` set (lib_drafts (library s)))"
proof -
  have "lib_sources (library (saveSourcesAll js s))
           = lib_sources (library s)
             @ filter (\<lambda>x. src_id x \<notin> src_id ` set (lib_sources (library s))) (sources s)"
    by (simp add: saveSourcesAll_sources mergeSources_def newSources_filter)
  with assms deleteLibItem_unique [OF assms] saveSourcesAll_unique [OF assms]
    addNote_unique_iff [OF assms] saveDraft_unique_iff [OF assms]
  show ?thesis by blast
qed

theorem library_ids_stay_unique_witness:
  "unique_ids (library curating) \<and> distinct (map src_id (sources curating))
   \<and> unique_ids (library (deleteLibItem sample_json Notes (src_id sample_note) curating))
   \<and> lib_sources (library (saveSourcesAll sample_json curating)) = [sample_source, sample_note]
   \<and> unique_ids (library (saveSourcesAll sample_json curating))
   \<and> unique_ids (library (addNote sample_json new_id new_date curating))
   \<and> unique_ids (library (saveDraft sample_json new_id new_date curating))"
proof -
  have l: "library curating = sample_library" and w: "sources curating = [sample_source, sample_note]"
    by (simp_all add: curating_def)
  have u: "unique_ids (library curating)"
    by (simp add: l sample_library_def unique_ids_def)
  have d: "distinct (map src_id (sources curating))"
    by (simp add: w sample_source_def sample_note_def lit_def)
  note t = library_ids_stay_unique
             [OF u, where js = sample_json and cat = Notes and i = "src_id sample_note"
                and uid = new_id and now = new_date]
  have 1: "unique_ids (library (deleteLibItem sample_json Notes (src_id sample_note) curating))"
    using t by blast
  have "lib_sources (library (saveSourcesAll sample_json curating))
           = lib_sources (library curating)
             @ filter (\<lambda>x. src_id x \<notin> src_id ` set (lib_sources (library curating))) (sources curating)"
    using t by blast
  then have 2: "lib_sources (library (saveSourcesAll sample_json curating)) = [sample_source, sample_note]"
    by (simp add: l w sample_library_def) (simp add: sample_source_def sample_note_def lit_def)
  have 3: "unique_ids (library (saveSourcesAll sample_json curating))"
    using t d by blast
  have "new_id \<notin> src_id ` set (lib_notes (library curating))"
    by (simp add: l sample_library_def sample_note_def new_id_def lit_def)
  then have 4: "unique_ids (library (addNote sample_json new_id new_date curating))"
    using t by blast
  have "new_id \<notin> d_id ` set (lib_drafts (library curating))"
    by (simp add: l sample_library_def)
  then have 5: "unique_ids (library (saveDraft sample_json new_id new_date curating))"
    using t by blast
  from u d 1 2 3 4 5 show ?thesis by blast
qed

subsection \<open>The JSON text of a library reads back\<close>

lemma nibbles:
  fixes n :: nat
  shows "((n div 4096 * 16 + n div 256 mod 16) * 16 + n div 16 mod 16) * 16 + n mod 16 = n"
proof -
  have a: "n div 256 = n div 16 div 16" and b: "n div 4096 = n div 256 div 16"
    by (simp_all add: div_mult2_eq)
  have "n div 4096 * 16 + n div 256 mod 16 = n div 256"
    unfolding b by (rule div_mult_mod_eq)
  moreover have "n div 256 * 16 + n div 16 mod 16 = n div 16"
    unfolding a by (rule div_mult_mod_eq)
  moreover have "n div 16 * 16 + n mod 16 = n"
    by (rule div_mult_mod_eq)
  ultimately show ?thesis by simp
qed

lemma unat_jschar: "unat (c :: jschar) < 65536"
  using unsigned_less [of c] by simp

lemma hexval_low: "d < 10 \<Longrightarrow> hexval (of_nat (48 + d)) = Some d"
proof -
  assume d: "d < 10"
  have u: "unat (of_nat (48 + d) :: jschar) = 48 + d"
    by (rule of_nat_inverse [OF refl]) (use d in simp)
  have "(0x30 :: jschar) \<le> of_nat (48 + d) \<and> (of_nat (48 + d) :: jschar) \<le> 0x39"
    unfolding word_le_nat_alt u using d by simp
  then show ?thesis
    by (simp add: hexval_def u del: of_nat_add)
qed

lemma hexval_high: "10 \<le> d \<Longrightarrow> d < 16 \<Longrightarrow> hexval (of_nat (87 + d)) = Some d"
proof -
  assume d: "10 \<le> d" "d < 16"
  have u: "unat (of_nat (87 + d) :: jschar) = 87 + d"
    by (rule of_nat_inverse [OF refl]) (use d in simp)
  have "\<not> ((0x30 :: jschar) \<le> of_nat (87 + d) \<and> (of_nat (87 + d) :: jschar) \<le> 0x39)"
    and "(0x61 :: jschar) \<le> of_nat (87 + d) \<and> (of_nat (87 + d) :: jschar) \<le> 0x66"
    unfolding word_le_nat_alt u using d by simp_all
  then show ?thesis
    by (simp add: hexval_def u del: of_nat_add)
qed

lemma hexval_hexdigit: "d < 16 \<Longrightarrow> hexval (hexdigit d) = Some d"
  by (cases "d < 10") (simp_all add: hexdigit_def hexval_low hexval_high del: of_nat_add)

lemma parse_unicode_escape:
  "parse_chars (unicode_escape c @ t) = read_more c (parse_chars t)"
proof -
  have a: "unat c div 4096 < 16"
    using unat_jschar [of c] by simp
  have v: "of_nat (((unat c div 4096 * 16 + unat c div 256 mod 16) * 16 + unat c div 16 mod 16) * 16
          + unat c mod 16) = c"
    by (simp only: nibbles of_nat_unat) simp
  have "parse_chars (unicode_escape c @ t) =
          parse_chars (0x5C # 0x75 # hexdigit (unat c div 4096) # hexdigit (unat c div 256 mod 16)
                        # hexdigit (unat c div 16 mod 16) # hexdigit (unat c mod 16) # t)"
    by (simp add: unicode_escape_def)
  also have "\<dots> = read_more (of_nat (((unat c div 4096 * 16 + unat c div 256 mod 16) * 16
                        + unat c div 16 mod 16) * 16 + unat c mod 16)) (parse_chars t)"
    using a by (simp add: hexval_hexdigit)
  finally show ?thesis by (simp only: v)
qed

lemma parse_plain_char:
  "c \<noteq> 0x22 \<Longrightarrow> c \<noteq> 0x5C \<Longrightarrow> \<not> c < 0x20 \<Longrightarrow>
   parse_chars (c # t) = read_more c (parse_chars t)"
  by simp

lemma parse_escape_char: "parse_chars (escape_char c @ t) = read_more c (parse_chars t)"
proof (cases "c = 0x08 \<or> c = 0x09 \<or> c = 0x0A \<or> c = 0x0C \<or> c = 0x0D \<or> c = 0x22 \<or> c = 0x5C")
  case True
  then show ?thesis
    by (elim disjE) (simp_all add: escape_char_def unescape_def)
next
  case False
  note special = this
  show ?thesis
  proof (cases "c < 0x20")
    case True
    with special have "escape_char c = unicode_escape c"
      by (simp add: escape_char_def)
    then show ?thesis by (simp only: parse_unicode_escape)
  next
    case False
    with special have "escape_char c = [c]"
      by (simp add: escape_char_def)
    with special False show ?thesis by (simp add: parse_plain_char)
  qed
qed

lemma surrogate_plain:
  assumes "leading_surrogate c \<or> trailing_surrogate c"
  shows "c \<noteq> 0x22 \<and> c \<noteq> 0x5C \<and> \<not> c < 0x20"
proof -
  from assms have "55296 \<le> unat c"
    unfolding leading_surrogate_def trailing_surrogate_def word_le_nat_alt by auto
  then show ?thesis
    unfolding word_less_nat_alt by auto
qed

lemma parse_surrogate:
  assumes "leading_surrogate c \<or> trailing_surrogate c"
  shows "parse_chars (c # t) = read_more c (parse_chars t)"
proof -
  from surrogate_plain [OF assms] have "c \<noteq> 0x22" and "c \<noteq> 0x5C" and "\<not> c < 0x20"
    by blast+
  then show ?thesis by (rule parse_plain_char)
qed

declare parse_chars.simps(2) [simp del]

lemma parse_end: "parse_chars (0x22 # rest) = Some ([], rest)"
  by (simp add: parse_chars.simps(2))

lemma parse_quote_chars: "parse_chars (quote_chars s @ 0x22 # rest) = Some (s, rest)"
proof (induction s rule: quote_chars.induct)
  case 1
  show ?case by (simp add: parse_end)
next
  case (2 c)
  show ?case
    by (simp add: parse_unicode_escape parse_escape_char parse_end read_more_def)
next
  case (3 c d cs)
  show ?case
  proof (cases "leading_surrogate c")
    case True
    note lead = this
    show ?thesis
    proof (cases "trailing_surrogate d")
      case True
      with lead 3 show ?thesis
        by (simp add: parse_surrogate read_more_def)
    next
      case False
      with lead 3 show ?thesis
        by (simp add: parse_unicode_escape read_more_def)
    qed
  next
    case False
    with 3 show ?thesis
      by (simp add: parse_unicode_escape parse_escape_char read_more_def)
  qed
qed

lemma parse_quote: "parse_chars (tl (quote s) @ rest) = Some (s, rest)"
  by (simp add: quote_def parse_quote_chars)

lemma skip_ws_head: "\<not> is_json_ws c \<Longrightarrow> skip_ws (c # cs) = c # cs"
  by (simp add: skip_ws_def)

lemma marks_not_ws:
  "\<not> is_json_ws 0x22" "\<not> is_json_ws 0x5B" "\<not> is_json_ws 0x7B" "\<not> is_json_ws 0x2C"
  "\<not> is_json_ws 0x5D" "\<not> is_json_ws 0x7D" "\<not> is_json_ws 0x3A"
  by (simp_all add: is_json_ws_def)

lemma stringify_head:
  "plain v \<Longrightarrow> \<exists>c cs. stringify_value v = c # cs \<and> \<not> is_json_ws c \<and> c \<noteq> 0x5D \<and> c \<noteq> 0x7D"
  by (cases v) (simp_all add: quote_def marks_not_ws)

lemma quote_head: "quote k = 0x22 # tl (quote k)"
  by (simp add: quote_def)

declare parse_value.simps(2) [simp del] parse_elements.simps(2) [simp del]
  parse_members.simps(2) [simp del]

lemma parse_value_string:
  "parse_chars cs = Some (str, r) \<Longrightarrow> parse_value (Suc n) (0x22 # cs) = Some (JString str, r)"
  by (simp add: parse_value.simps(2) skip_ws_head marks_not_ws)

lemma parse_value_empty_array: "parse_value (Suc n) (0x5B # 0x5D # r) = Some (JArray [], r)"
  by (simp add: parse_value.simps(2) skip_ws_head marks_not_ws)

lemma parse_value_array:
  "\<not> is_json_ws d \<Longrightarrow> d \<noteq> 0x5D \<Longrightarrow> parse_elements n (d # r) = Some (vs, r') \<Longrightarrow>
   parse_value (Suc n) (0x5B # d # r) = Some (JArray vs, r')"
  by (simp add: parse_value.simps(2) skip_ws_head marks_not_ws)

lemma parse_value_empty_object: "parse_value (Suc n) (0x7B # 0x7D # r) = Some (JObject [], r)"
  by (simp add: parse_value.simps(2) skip_ws_head marks_not_ws)

lemma parse_value_object:
  "\<not> is_json_ws d \<Longrightarrow> d \<noteq> 0x7D \<Longrightarrow> parse_members n (d # r) = Some (kvs, r') \<Longrightarrow>
   parse_value (Suc n) (0x7B # d # r) = Some (JObject kvs, r')"
  by (simp add: parse_value.simps(2) skip_ws_head marks_not_ws)

lemma parse_elements_last:
  "parse_value n s = Some (v, 0x5D # r) \<Longrightarrow> parse_elements (Suc n) s = Some ([v], r)"
  by (simp add: parse_elements.simps(2) skip_ws_head marks_not_ws)

lemma parse_elements_next:
  "parse_value n s = Some (v, 0x2C # r) \<Longrightarrow> parse_elements n r = Some (vs, r') \<Longrightarrow>
   parse_elements (Suc n) s = Some (v # vs, r')"
  by (simp add: parse_elements.simps(2) skip_ws_head marks_not_ws)

lemma parse_members_last:
  "parse_chars cs = Some (k, 0x3A # r1) \<Longrightarrow> parse_value n r1 = Some (v, 0x7D # r) \<Longrightarrow>
   parse_members (Suc n) (0x22 # cs) = Some ([(k, v)], r)"
  by (simp add: parse_members.simps(2) skip_ws_head marks_not_ws)

lemma parse_members_next:
  "parse_chars cs = Some (k, 0x3A # r1) \<Longrightarrow> parse_value n r1 = Some (v, 0x2C # r) \<Longrightarrow>
   parse_members n r = Some (kvs, r') \<Longrightarrow>
   parse_members (Suc n) (0x22 # cs) = Some ((k, v) # kvs, r')"
  by (simp add: parse_members.simps(2) skip_ws_head marks_not_ws)

lemma parse_elements_join:
  assumes "\<And>v n rest. v \<in> set vs \<Longrightarrow> length (stringify_value v) \<le> n \<Longrightarrow>
             parse_value n (stringify_value v @ rest) = Some (v, rest)"
    and "vs \<noteq> []"
    and "length (join [0x2C] (map stringify_value vs)) < n"
  shows "parse_elements n (join [0x2C] (map stringify_value vs) @ 0x5D # rest) = Some (vs, rest)"
  using assms
proof (induction vs arbitrary: n)
  case Nil
  then show ?case by simp
next
  case (Cons v ws)
  from Cons.prems(3) obtain m where n: "n = Suc m"
    by (cases n) simp_all
  show ?case
  proof (cases ws)
    case Nil
    with Cons.prems(3) n have "length (stringify_value v) \<le> m"
      by simp
    then have "parse_value m (stringify_value v @ 0x5D # rest) = Some (v, 0x5D # rest)"
      by (rule Cons.prems(1) [OF list.set_intros(1)])
    then have p: "parse_elements (Suc m) (stringify_value v @ 0x5D # rest) = Some ([v], rest)"
      by (rule parse_elements_last)
    have g: "join [0x2C] (map stringify_value (v # ws)) @ 0x5D # rest = stringify_value v @ 0x5D # rest"
      using Nil by simp
    show ?thesis unfolding n g using p Nil by simp
  next
    case (Cons w ws')
    let ?tail = "join [0x2C] (map stringify_value ws)"
    have j: "join [0x2C] (map stringify_value (v # ws)) = stringify_value v @ 0x2C # ?tail"
      using Cons by simp
    from Cons.prems(3) have "length (stringify_value v @ 0x2C # ?tail) < n"
      unfolding j .
    with n have l: "length (stringify_value v) \<le> m" and t: "length ?tail < m"
      by simp_all
    have "parse_value m (stringify_value v @ 0x2C # ?tail @ 0x5D # rest)
            = Some (v, 0x2C # ?tail @ 0x5D # rest)"
      using l by (rule Cons.prems(1) [OF list.set_intros(1)])
    moreover have "parse_elements m (?tail @ 0x5D # rest) = Some (ws, rest)"
    proof (rule Cons.IH)
      show "ws \<noteq> []" using Cons by simp
      show "length ?tail < m" by (rule t)
      show "parse_value k (stringify_value u @ r) = Some (u, r)"
        if "u \<in> set ws" and "length (stringify_value u) \<le> k" for u k r
        using that by (intro Cons.prems(1)) simp_all
    qed
    ultimately have p: "parse_elements (Suc m) (stringify_value v @ 0x2C # ?tail @ 0x5D # rest)
                       = Some (v # ws, rest)"
      by (rule parse_elements_next)
    have g: "join [0x2C] (map stringify_value (v # ws)) @ 0x5D # rest
               = stringify_value v @ 0x2C # ?tail @ 0x5D # rest"
      unfolding j by simp
    show ?thesis unfolding n g by (rule p)
  qed
qed

lemma parse_members_join:
  assumes "\<And>kv n rest. kv \<in> set kvs \<Longrightarrow> length (stringify_value (snd kv)) \<le> n \<Longrightarrow>
             parse_value n (stringify_value (snd kv) @ rest) = Some (snd kv, rest)"
    and "kvs \<noteq> []"
    and "length (join [0x2C] (map member_text kvs)) < n"
  shows "parse_members n (join [0x2C] (map member_text kvs) @ 0x7D # rest) = Some (kvs, rest)"
  using assms
proof (induction kvs arbitrary: n)
  case Nil
  then show ?case by simp
next
  case (Cons kv ws)
  obtain k v where kv: "kv = (k, v)" by (cases kv)
  from Cons.prems(3) obtain m where n: "n = Suc m"
    by (cases n) simp_all
  have mt: "member_text kv @ x = 0x22 # tl (quote k) @ 0x3A # stringify_value v @ x" for x
    by (simp add: member_text_def kv quote_def)
  have key: "parse_chars (tl (quote k) @ 0x3A # x) = Some (k, 0x3A # x)" for x
    by (rule parse_quote)
  have len: "length (stringify_value v) \<le> length (member_text kv)"
    by (simp add: member_text_def kv)
  show ?case
  proof (cases ws)
    case Nil
    with Cons.prems(3) n len have "length (stringify_value v) \<le> m"
      by simp
    then have "parse_value m (stringify_value v @ 0x7D # rest) = Some (v, 0x7D # rest)"
      using Cons.prems(1) [of kv m "0x7D # rest"] by (simp add: kv)
    with key have p: "parse_members (Suc m) (0x22 # tl (quote k) @ 0x3A # stringify_value v @ 0x7D # rest)
                     = Some ([(k, v)], rest)"
      by (rule parse_members_last)
    have g: "join [0x2C] (map member_text (kv # ws)) @ 0x7D # rest
               = 0x22 # tl (quote k) @ 0x3A # stringify_value v @ 0x7D # rest"
      using Nil mt [of "0x7D # rest"] by simp
    show ?thesis unfolding n g using p Nil by (simp add: kv)
  next
    case (Cons w ws')
    let ?tail = "join [0x2C] (map member_text ws)"
    have j: "join [0x2C] (map member_text (kv # ws)) = member_text kv @ 0x2C # ?tail"
      using Cons by simp
    from Cons.prems(3) have "length (member_text kv @ 0x2C # ?tail) < n"
      unfolding j .
    with n len have l: "length (stringify_value v) \<le> m" and t: "length ?tail < m"
      by simp_all
    have "parse_value m (stringify_value v @ 0x2C # ?tail @ 0x7D # rest)
            = Some (v, 0x2C # ?tail @ 0x7D # rest)"
      using l Cons.prems(1) [of kv m "0x2C # ?tail @ 0x7D # rest"] by (simp add: kv)
    moreover have "parse_members m (?tail @ 0x7D # rest) = Some (ws, rest)"
    proof (rule Cons.IH)
      show "ws \<noteq> []" using Cons by simp
      show "length ?tail < m" by (rule t)
      show "parse_value i (stringify_value (snd u) @ r) = Some (snd u, r)"
        if "u \<in> set ws" and "length (stringify_value (snd u)) \<le> i" for u i r
        using that by (intro Cons.prems(1)) simp_all
    qed
    ultimately have p: "parse_members (Suc m)
                       (0x22 # tl (quote k) @ 0x3A # stringify_value v @ 0x2C # ?tail @ 0x7D # rest)
                     = Some ((k, v) # ws, rest)"
      using key by (intro parse_members_next)
    have g: "join [0x2C] (map member_text (kv # ws)) @ 0x7D # rest
               = 0x22 # tl (quote k) @ 0x3A # stringify_value v @ 0x2C # ?tail @ 0x7D # rest"
      unfolding j using mt [of "0x2C # ?tail @ 0x7D # rest"] by simp
    show ?thesis unfolding n g using p by (simp add: kv)
  qed
qed

lemma join_Cons: "join sep (x # xs) = x @ (if xs = [] then [] else sep @ join sep xs)"
  by (cases xs) simp_all

lemma stringify_object:
  "stringify_value (JObject kvs) = 0x7B # join [0x2C] (map member_text kvs) @ [0x7D]"
proof -
  have "(\<lambda>kv. quote (fst kv) @ 0x3A # stringify_value (snd kv)) = member_text"
    by (simp add: fun_eq_iff member_text_def)
  then show ?thesis by simp
qed

lemma parse_stringify:
  "plain v \<Longrightarrow> length (stringify_value v) \<le> n \<Longrightarrow>
   parse_value n (stringify_value v @ rest) = Some (v, rest)"
proof (induction v arbitrary: n rest)
  case JNull
  then show ?case by simp
next
  case (JBool b)
  then show ?case by simp
next
  case (JNumber t)
  then show ?case by simp
next
  case (JString s)
  from JString.prems(2) obtain m where n: "n = Suc m"
    by (cases n) (simp_all add: quote_def)
  have "parse_value (Suc m) (0x22 # tl (quote s) @ rest) = Some (JString s, rest)"
    by (rule parse_value_string [OF parse_quote])
  then show ?case
    by (simp add: n quote_def)
next
  case (JArray vs)
  from JArray.prems(2) obtain m where n: "n = Suc m"
    by (cases n) simp_all
  let ?body = "join [0x2C] (map stringify_value vs)"
  show ?case
  proof (cases vs)
    case Nil
    then show ?thesis
      by (simp add: n parse_value_empty_array)
  next
    case (Cons v ws)
    then have "plain v" using JArray.prems(1) by simp
    then obtain c cs where h: "stringify_value v = c # cs" "\<not> is_json_ws c" "c \<noteq> 0x5D"
      using stringify_head by blast
    obtain r where b: "?body = c # r"
      using Cons h(1) by (simp add: join_Cons)
    have "length ?body < m"
      using JArray.prems(2) n by simp
    moreover have "vs \<noteq> []" using Cons by simp
    moreover have "parse_value k (stringify_value u @ x) = Some (u, x)"
      if "u \<in> set vs" and "length (stringify_value u) \<le> k" for u k x
      using that JArray.prems(1) by (intro JArray.IH) simp_all
    ultimately have "parse_elements m (?body @ 0x5D # rest) = Some (vs, rest)"
      by (intro parse_elements_join)
    then have "parse_elements m (c # r @ 0x5D # rest) = Some (vs, rest)"
      by (simp add: b)
    with h(2,3) have "parse_value (Suc m) (0x5B # c # r @ 0x5D # rest) = Some (JArray vs, rest)"
      by (rule parse_value_array)
    then show ?thesis
      by (simp add: n b)
  qed
next
  case (JObject kvs)
  from JObject.prems(2) obtain m where n: "n = Suc m"
    by (cases n) simp_all
  let ?body = "join [0x2C] (map member_text kvs)"
  show ?case
  proof (cases kvs)
    case Nil
    then show ?thesis
      by (simp add: n parse_value_empty_object)
  next
    case (Cons kv ws)
    obtain r where b: "?body = 0x22 # r"
      using Cons by (simp add: join_Cons member_text_def quote_def)
    have "length ?body < m"
      using JObject.prems(2) n unfolding stringify_object by simp
    moreover have "kvs \<noteq> []" using Cons by simp
    moreover have "parse_value k (stringify_value (snd u) @ x) = Some (snd u, x)"
      if "u \<in> set kvs" and "length (stringify_value (snd u)) \<le> k" for u k x
    proof (rule JObject.IH)
      show "u \<in> set kvs" by (rule that(1))
      show "snd u \<in> Basic_BNFs.snds u" by (cases u) simp
      show "plain (snd u)" using that(1) JObject.prems(1) by simp
      show "length (stringify_value (snd u)) \<le> k" by (rule that(2))
    qed
    ultimately have "parse_members m (?body @ 0x7D # rest) = Some (kvs, rest)"
      by (intro parse_members_join)
    then have pm: "parse_members m (0x22 # r @ 0x7D # rest) = Some (kvs, rest)"
      by (simp add: b)
    have "(0x22 :: jschar) \<noteq> 0x7D"
      by simp
    with marks_not_ws(1)
    have "parse_value (Suc m) (0x7B # 0x22 # r @ 0x7D # rest) = Some (JObject kvs, rest)"
      using pm by (rule parse_value_object)
    then show ?thesis
      by (simp add: n b stringify_object del: stringify_value.simps)
  qed
qed

lemma JSON_parse_stringify: "plain v \<Longrightarrow> JSON_parse (stringify_value v) = Some v"
  using parse_stringify [of v "Suc (length (stringify_value v))" "[]"]
  by (simp add: JSON_parse_def skip_ws_def)

lemma type_named_name: "type_named (type_name t) = Some t"
  by (cases t) (simp_all add: type_name_def type_named_def lit_def)

lemma as_source_value: "as_source (source_value s) = Some s"
proof -
  have "string_field (lit ''id'') [(lit ''id'', JString a), (lit ''type'', JString b),
          (lit ''title'', JString c), (lit ''content'', JString d), (lit ''date'', JString e)] = Some a"
    and "string_field (lit ''type'') [(lit ''id'', JString a), (lit ''type'', JString b),
          (lit ''title'', JString c), (lit ''content'', JString d), (lit ''date'', JString e)] = Some b"
    and "string_field (lit ''title'') [(lit ''id'', JString a), (lit ''type'', JString b),
          (lit ''title'', JString c), (lit ''content'', JString d), (lit ''date'', JString e)] = Some c"
    and "string_field (lit ''content'') [(lit ''id'', JString a), (lit ''type'', JString b),
          (lit ''title'', JString c), (lit ''content'', JString d), (lit ''date'', JString e)] = Some d"
    and "string_field (lit ''date'') [(lit ''id'', JString a), (lit ''type'', JString b),
          (lit ''title'', JString c), (lit ''content'', JString d), (lit ''date'', JString e)] = Some e"
    for a b c d e
    by (simp_all add: string_field_def field_def lit_def)
  then show ?thesis
    by (simp add: as_source_def source_value_def type_named_name)
qed

lemma as_draft_value: "as_draft (draft_value d) = Some d"
proof -
  let ?o = "\<lambda>a b c d e f g. [(lit ''id'', JString a), (lit ''title'', JString b),
          (lit ''content'', JString c), (lit ''outline'', JString d), (lit ''analysis'', JString e),
          (lit ''date'', JString f), (lit ''format'', JString g)]"
  have "string_field (lit ''id'') (?o a b c d e f g) = Some a"
    and "string_field (lit ''title'') (?o a b c d e f g) = Some b"
    and "string_field (lit ''content'') (?o a b c d e f g) = Some c"
    and "string_field (lit ''outline'') (?o a b c d e f g) = Some d"
    and "string_field (lit ''analysis'') (?o a b c d e f g) = Some e"
    and "string_field (lit ''date'') (?o a b c d e f g) = Some f"
    and "string_field (lit ''format'') (?o a b c d e f g) = Some g"
    for a b c d e f g
    by (simp_all add: string_field_def field_def lit_def)
  then show ?thesis
    by (simp add: as_draft_def draft_value_def)
qed

lemma those_map_Some: "(\<And>x. f (g x) = Some x) \<Longrightarrow> those (map (f \<circ> g) xs) = Some xs"
  by (induction xs) simp_all

lemma as_library_value: "as_library (library_value lib) = Some lib"
proof -
  let ?o = "[(lit ''sources'', JArray (map source_value (lib_sources lib))),
             (lit ''drafts'', JArray (map draft_value (lib_drafts lib))),
             (lit ''notes'', JArray (map source_value (lib_notes lib)))]"
  have f: "field (lit ''sources'') ?o = Some (JArray (map source_value (lib_sources lib)))"
    "field (lit ''drafts'') ?o = Some (JArray (map draft_value (lib_drafts lib)))"
    "field (lit ''notes'') ?o = Some (JArray (map source_value (lib_notes lib)))"
    by (simp_all add: field_def lit_def)
  have "list_field as_source (lit ''sources'') ?o = Some (lib_sources lib)"
    and "list_field as_draft (lit ''drafts'') ?o = Some (lib_drafts lib)"
    and "list_field as_source (lit ''notes'') ?o = Some (lib_notes lib)"
    by (simp_all add: list_field_def f those_map_Some as_source_value as_draft_value)
  then show ?thesis
    by (simp add: as_library_def library_value_def)
qed

lemma plain_library_value: "plain (library_value lib)"
  by (simp add: library_value_def source_value_def draft_value_def)

lemma library_text_not_empty: "stringify_value (library_value lib) \<noteq> []"
  by (simp add: library_value_def)

lemma library_reads_back: "parse JSON (stringify JSON lib) = Some lib"
  by (simp add: JSON_def JSON_parse_stringify plain_library_value as_library_value)

lemma library_text_written: "stringify JSON lib \<noteq> []"
  by (simp add: JSON_def library_text_not_empty)

text \<open>
  The codec at work: the text written for the sample library, and the reader on a text
  with white space and escapes and on one with a trailing comma.
\<close>

lemma sample_library_text:
  \<open>stringify JSON sample_library =
     lit ''{"sources":[{"id":"lqu5m2o0x7f3a","type":"text","title":"Paper","content":"body","date":"2024-01-01T00:00:00.000Z"}],"drafts":[],"notes":[{"id":"lqvl1xc04kq9z","type":"note","title":"Note","content":"idea","date":"2024-01-02T00:00:00.000Z"}]}''\<close>
  by (simp add: JSON_def library_value_def source_value_def sample_library_def sample_source_def
      sample_note_def type_name_def quote_def escape_char_def leading_surrogate_def
      trailing_surrogate_def lit_def)

lemma parse_example:
  \<open>JSON_parse (lit '' ["a'' @ [0x5C] @ lit ''u0041'' @ [0x5C] @ lit ''n", -2.5e+3 ,true, null , {"k" : [ ]}] '')
     = Some (JArray [JString (lit ''aA'' @ [0x0A]), JNumber (lit ''-2.5e+3''), JBool True, JNull,
                     JObject [(lit ''k'', JArray [])]])\<close>
  by code_simp

lemma parse_refused:
  \<open>JSON_parse (lit ''{"sources":[],}'') = None\<close>
  by code_simp

text \<open>
  C9. Run with the platform's JSON codec, on a store that accepts the write, loading after
  saving returns the library that was saved, for every library: equal in its sources, its
  drafts and its notes.
\<close>

theorem load_after_save_returns_library:
  assumes "\<not> full st"
  shows "loadLibrary JSON (saveLibrary JSON lib st) = lib"
  using assms
  by (simp add: loadLibrary_def saveLibrary_accepted library_reads_back library_text_written)

theorem load_after_save_returns_library_witness:
  "\<not> full empty_storage
   \<and> loadLibrary JSON (saveLibrary JSON sample_library empty_storage) = sample_library"
proof -
  have f: "\<not> full empty_storage"
    by (simp add: empty_storage_def)
  from load_after_save_returns_library [OF f] f show ?thesis by blast
qed

lemma sendChat_turn:
  assumes "trim (chatInput s) \<noteq> []" and "\<not> chatLoading s"
  shows "snd (sendChat fetch s) = [chat_request s]
       \<and> (\<exists>reply. chatMessages (fst (sendChat fetch s)) =
            chatMessages s @ [\<lparr>role = User, content = trim (chatInput s)\<rparr>,
                              \<lparr>role = Assistant, content = reply\<rparr>])"
proof (cases "read_response (fetch (chat_request s))")
  case (Inl m)
  with assms show ?thesis by (simp add: sendChat_failed)
next
  case (Inr response)
  with assms show ?thesis by (simp add: sendChat_answered)
qed

text \<open>
  C10. In a refinement turn whose agent call fails, the draft is unchanged, the transcript
  is the old one followed by the user's turn and an assistant turn \<open>Error: <message>\<close>, and
  the loading flag is cleared: a next non-blank request is sent to the agent and adds its
  user turn and an assistant turn to that transcript.
\<close>

theorem failed_turn_keeps_draft_and_session:
  assumes "trim (chatInput s) \<noteq> []" and "\<not> chatLoading s"
    and "read_response (fetch (chat_request s)) = Inl m"
  shows "draft (fst (sendChat fetch s)) = draft s
       \<and> chatMessages (fst (sendChat fetch s)) =
           chatMessages s @ [\<lparr>role = User, content = trim (chatInput s)\<rparr>,
                             \<lparr>role = Assistant, content = lit ''Error: '' @ m\<rparr>]
       \<and> \<not> chatLoading (fst (sendChat fetch s))
       \<and> snd (sendChat fetch s) = [chat_request s]
       \<and> (trim request \<noteq> [] \<longrightarrow>
            snd (sendChat fetch' ((fst (sendChat fetch s))\<lparr>chatInput := request\<rparr>))
              = [chat_request ((fst (sendChat fetch s))\<lparr>chatInput := request\<rparr>)]
            \<and> (\<exists>reply. chatMessages (fst (sendChat fetch' ((fst (sendChat fetch s))\<lparr>chatInput := request\<rparr>)))
                  = chatMessages (fst (sendChat fetch s))
                    @ [\<lparr>role = User, content = trim request\<rparr>,
                       \<lparr>role = Assistant, content = reply\<rparr>]))"
proof -
  let ?s' = "fst (sendChat fetch s)"
  have e: "sendChat fetch s =
    (s\<lparr>chatInput := [],
       chatMessages := chatMessages s @ [\<lparr>role = User, content = trim (chatInput s)\<rparr>,
                                         \<lparr>role = Assistant, content = lit ''Error: '' @ m\<rparr>],
       chatLoading := False\<rparr>, [chat_request s])"
    using assms by (rule sendChat_failed)
  have 1: "draft ?s' = draft s" by (simp add: e)
  have 2: "chatMessages ?s' = chatMessages s @ [\<lparr>role = User, content = trim (chatInput s)\<rparr>,
                             \<lparr>role = Assistant, content = lit ''Error: '' @ m\<rparr>]"
    by (simp add: e)
  have 3: "\<not> chatLoading ?s'" by (simp add: e)
  have 4: "snd (sendChat fetch s) = [chat_request s]" by (simp add: e)
  have 5: "trim request \<noteq> [] \<longrightarrow>
            snd (sendChat fetch' (?s'\<lparr>chatInput := request\<rparr>))
              = [chat_request (?s'\<lparr>chatInput := request\<rparr>)]
            \<and> (\<exists>reply. chatMessages (fst (sendChat fetch' (?s'\<lparr>chatInput := request\<rparr>)))
                  = chatMessages ?s'
                    @ [\<lparr>role = User, content = trim request\<rparr>,
                       \<lparr>role = Assistant, content = reply\<rparr>])"
  proof
    assume r: "trim request \<noteq> []"
    have "trim (chatInput (?s'\<lparr>chatInput := request\<rparr>)) \<noteq> []"
      using r by simp
    moreover have "\<not> chatLoading (?s'\<lparr>chatInput := request\<rparr>)"
      using 3 by simp
    ultimately show "snd (sendChat fetch' (?s'\<lparr>chatInput := request\<rparr>))
              = [chat_request (?s'\<lparr>chatInput := request\<rparr>)]
            \<and> (\<exists>reply. chatMessages (fst (sendChat fetch' (?s'\<lparr>chatInput := request\<rparr>)))
                  = chatMessages ?s'
                    @ [\<lparr>role = User, content = trim request\<rparr>,
                       \<lparr>role = Assistant, content = reply\<rparr>])"
      using sendChat_turn [of "?s'\<lparr>chatInput := request\<rparr>" fetch'] by simp
  qed
  from 1 2 3 4 5 show ?thesis by blast
qed

theorem failed_turn_keeps_draft_and_session_witness:
  "trim (chatInput drafted) \<noteq> [] \<and> \<not> chatLoading drafted
   \<and> draft (fst (sendChat unavailable drafted)) = draft drafted
   \<and> chatMessages (fst (sendChat unavailable drafted)) =
       [\<lparr>role = User, content = lit ''shorter''\<rparr>,
        \<lparr>role = Assistant, content = lit ''Error: API 529''\<rparr>]
   \<and> \<not> chatLoading (fst (sendChat unavailable drafted))
   \<and> length (snd (sendChat (replying (lit ''done''))
                    ((fst (sendChat unavailable drafted))\<lparr>chatInput := lit ''again''\<rparr>))) = 1"
proof -
  have i: "chatInput drafted = lit '' shorter ''" and c: "chatMessages drafted = []"
    by (simp_all add: drafted_def idle_def initial_state_def)
  have tr: "trim (chatInput drafted) = lit ''shorter''"
    by (simp add: i trim_def lit_def is_ws_def)
  have g: "trim (chatInput drafted) \<noteq> []"
    by (simp add: tr lit_def)
  have l: "\<not> chatLoading drafted"
    by (simp add: drafted_def idle_def initial_state_def)
  have n: "trim (lit ''again'') \<noteq> []"
    by (simp add: trim_def lit_def is_ws_def)
  have m: "lit ''Error: '' @ lit ''API '' @ show_nat 529 = lit ''Error: API 529''"
    by (simp add: show_nat.simps digit_def lit_def)
  note t = failed_turn_keeps_draft_and_session
             [where fetch = unavailable and fetch' = "replying (lit ''done'')"
                and request = "lit ''again''", OF g l unavailable_fails]
  have 1: "draft (fst (sendChat unavailable drafted)) = draft drafted"
    using t by blast
  have "chatMessages (fst (sendChat unavailable drafted)) =
           chatMessages drafted @ [\<lparr>role = User, content = trim (chatInput drafted)\<rparr>,
                             \<lparr>role = Assistant, content = lit ''Error: '' @ lit ''API '' @ show_nat 529\<rparr>]"
    using t by blast
  then have 2: "chatMessages (fst (sendChat unavailable drafted)) =
       [\<lparr>role = User, content = lit ''shorter''\<rparr>,
        \<lparr>role = Assistant, content = lit ''Error: API 529''\<rparr>]"
    by (simp only: c tr m append_Nil)
  have 3: "\<not> chatLoading (fst (sendChat unavailable drafted))"
    using t by blast
  have "snd (sendChat (replying (lit ''done''))
               ((fst (sendChat unavailable drafted))\<lparr>chatInput := lit ''again''\<rparr>))
          = [chat_request ((fst (sendChat unavailable drafted))\<lparr>chatInput := lit ''again''\<rparr>)]"
    using t n by blast
  then have 4: "length (snd (sendChat (replying (lit ''done''))
                    ((fst (sendChat unavailable drafted))\<lparr>chatInput := lit ''again''\<rparr>))) = 1"
    by simp
  from g l 1 2 3 4 show ?thesis by blast
qed

end
